theory Spec2Isabelle
  imports Complex_Main
begin

section \<open>Number-to-string helpers of the host language\<close>

text \<open>
  The script prints numbers with \<^verbatim>\<open>Number.prototype.toString\<close> and pads them with
  \<^verbatim>\<open>String.prototype.padStart\<close>. Every number printed by the script is an integer
  (the result of \<^verbatim>\<open>Math.floor\<close> or an integer counter); for an integer of magnitude
  below \<open>2^53\<close> \<^verbatim>\<open>toString\<close> yields exactly its decimal digits, with a leading minus sign
  for a negative one. Strings are lists of code units.
\<close>

definition digit_char :: "nat \<Rightarrow> char" where
  "digit_char d = ''0123456789'' ! d"

fun dec :: "nat \<Rightarrow> string" where
  "dec n = (if n < 10 then [digit_char n] else dec (n div 10) @ [digit_char (n mod 10)])"

declare dec.simps [simp del]

definition toString :: "int \<Rightarrow> string" where
  "toString i = (if i < 0 then CHR ''-'' # dec (nat (- i)) else dec (nat i))"

definition padStart :: "nat \<Rightarrow> char \<Rightarrow> string \<Rightarrow> string" where
  "padStart targetLength c s = replicate (targetLength - length s) c @ s"

section \<open>Countdown timer\<close>

text \<open>
  The timer fields of \<^verbatim>\<open>RelaxationMusicPlayer\<close> (constructor, ``timer state variables''),
  the two DOM nodes the timer methods write to (\<^verbatim>\<open>timerDisplay.textContent\<close>,
  \<^verbatim>\<open>timerStart.textContent\<close>, \<^verbatim>\<open>timerStart.disabled\<close>), and the part of the browser the
  timer talks to: the set of interval handles whose callback is still scheduled
  (\<^verbatim>\<open>setInterval\<close> adds one, \<^verbatim>\<open>clearInterval\<close> removes one), the next handle the browser
  hands out, and the number of \<^verbatim>\<open>setTimeout(() => this.resetTimer(), 4000)\<close> callbacks that
  are scheduled and have not run yet. A handle is a positive integer in the browser, hence
  truthy in \<^verbatim>\<open>if (this.timerInterval)\<close>; \<open>None\<close> is \<^verbatim>\<open>null\<close>. The inline colours of the preset buttons, the desktop
  notification and the chime of \<^verbatim>\<open>timerComplete\<close> are presentation only and carry no state
  that the timer reads back; they are not part of the record.
\<close>

record timer_state =
  timerMinutes :: int
  timerSeconds :: int
  timerInterval :: "nat option"
  timerRunning :: bool
  timerDisplay :: string
  timerStartText :: string
  timerStartDisabled :: bool
  intervals :: "nat set"
  nextHandle :: nat
  pendingResets :: nat

definition updateTimerDisplay :: "timer_state \<Rightarrow> timer_state" where
  "updateTimerDisplay s =
     s\<lparr>timerDisplay := padStart 2 CHR ''0'' (toString (timerMinutes s)) @ '':'' @
                        padStart 2 CHR ''0'' (toString (timerSeconds s))\<rparr>"

definition pauseTimer :: "timer_state \<Rightarrow> timer_state" where
  "pauseTimer s =
     (if timerRunning s then
        (let s1 = s\<lparr>timerRunning := False, timerStartText := ''Start'',
                    timerStartDisabled := False\<rparr>
         in case timerInterval s1 of
              Some h \<Rightarrow> s1\<lparr>intervals := intervals s1 - {h}, timerInterval := None\<rparr>
            | None \<Rightarrow> s1)
      else s)"

definition resetTimer :: "timer_state \<Rightarrow> timer_state" where
  "resetTimer s =
     updateTimerDisplay
       ((pauseTimer s)\<lparr>timerMinutes := 60, timerSeconds := 0,
                        timerStartText := ''Start'', timerStartDisabled := False\<rparr>)"

definition setTimer :: "int \<Rightarrow> timer_state \<Rightarrow> timer_state" where
  "setTimer minutes s =
     updateTimerDisplay
       ((pauseTimer s)\<lparr>timerMinutes := minutes, timerSeconds := 0,
                        timerStartText := ''Start'', timerStartDisabled := False\<rparr>)"

definition timerComplete :: "timer_state \<Rightarrow> timer_state" where
  "timerComplete s =
     (let s1 = pauseTimer s;
          s2 = s1\<lparr>timerDisplay := ''00:00''\<rparr>;
          s3 = s2\<lparr>timerStartText := ''Start'', timerStartDisabled := False\<rparr>;
          s4 = s3\<lparr>timerDisplay := ''Session Complete!''\<rparr>
      in s4\<lparr>pendingResets := Suc (pendingResets s4)\<rparr>)"

text \<open>The body of the arrow function that \<^verbatim>\<open>startTimer\<close> passes to \<^verbatim>\<open>setInterval\<close>.\<close>

definition tick :: "timer_state \<Rightarrow> timer_state" where
  "tick s =
     (if timerSeconds s = 0 then
        (if timerMinutes s = 0 then timerComplete s
         else updateTimerDisplay (s\<lparr>timerMinutes := timerMinutes s - 1, timerSeconds := 59\<rparr>))
      else updateTimerDisplay (s\<lparr>timerSeconds := timerSeconds s - 1\<rparr>))"

definition startTimer :: "timer_state \<Rightarrow> timer_state" where
  "startTimer s =
     (if \<not> timerRunning s \<and> (timerMinutes s > 0 \<or> timerSeconds s > 0) then
        s\<lparr>timerRunning := True, timerStartText := ''Running...'', timerStartDisabled := True,
          timerInterval := Some (nextHandle s),
          intervals := insert (nextHandle s) (intervals s),
          nextHandle := Suc (nextHandle s)\<rparr>
      else s)"

text \<open>
  What can happen to the timer: a click on one of the six timer buttons (the listeners of
  \<^verbatim>\<open>setupEventListeners\<close>; the three preset buttons call \<^verbatim>\<open>setTimer\<close> with 60, 30 and 15),
  the browser running the callback of an interval handle (only if that handle is still
  scheduled), and the browser running a pending delayed reset.
\<close>

datatype preset = Preset60 | Preset30 | Preset15

fun preset_minutes :: "preset \<Rightarrow> int" where
  "preset_minutes Preset60 = 60"
| "preset_minutes Preset30 = 30"
| "preset_minutes Preset15 = 15"

datatype timer_event =
    StartClick
  | PauseClick
  | ResetClick
  | PresetClick preset
  | IntervalFires nat
  | ResetTimeoutFires

fun timer_step :: "timer_event \<Rightarrow> timer_state \<Rightarrow> timer_state" where
  "timer_step StartClick s = startTimer s"
| "timer_step PauseClick s = pauseTimer s"
| "timer_step ResetClick s = resetTimer s"
| "timer_step (PresetClick p) s = setTimer (preset_minutes p) s"
| "timer_step (IntervalFires h) s = (if h \<in> intervals s then tick s else s)"
| "timer_step ResetTimeoutFires s =
     (if pendingResets s > 0 then resetTimer (s\<lparr>pendingResets := pendingResets s - 1\<rparr>) else s)"

fun timer_run :: "timer_event list \<Rightarrow> timer_state \<Rightarrow> timer_state" where
  "timer_run [] s = s"
| "timer_run (e # es) s = timer_run es (timer_step e s)"

text \<open>
  The timer after the constructor has run: the field initialisers, then
  \<^verbatim>\<open>initializePlayer\<close> calling \<^verbatim>\<open>updateTimerDisplay\<close>. The label of the start button comes
  from the page's markup.
\<close>

definition timer_init :: "string \<Rightarrow> timer_state" where
  "timer_init startLabel =
     updateTimerDisplay
       \<lparr>timerMinutes = 60, timerSeconds = 0, timerInterval = None, timerRunning = False,
        timerDisplay = [], timerStartText = startLabel, timerStartDisabled = False,
        intervals = {}, nextHandle = 1, pendingResets = 0\<rparr>"

text \<open>
  The data-model invariant of the timer: remaining time is non-negative with seconds
  below 60, and the stored handle is present exactly when the timer runs, in which case it
  is the one and only scheduled interval.
\<close>

definition timer_inv :: "timer_state \<Rightarrow> bool" where
  "timer_inv s \<longleftrightarrow>
     0 \<le> timerMinutes s \<and> 0 \<le> timerSeconds s \<and> timerSeconds s \<le> 59 \<and>
     (timerRunning s \<longleftrightarrow> timerInterval s \<noteq> None) \<and>
     intervals s = set_option (timerInterval s) \<and>
     (case timerInterval s of Some h \<Rightarrow> h < nextHandle s | None \<Rightarrow> True)"

section \<open>Playback controller\<close>

text \<open>
  A number that the script uses as a track index is an integer or \<^verbatim>\<open>NaN\<close>: the remainder
  operator \<^verbatim>\<open>%\<close> yields \<^verbatim>\<open>NaN\<close> for a zero divisor, and otherwise the remainder of the
  truncating division, which carries the sign of the dividend.
\<close>

datatype jsnum = Num int | NaN

definition js_rem :: "int \<Rightarrow> int \<Rightarrow> jsnum" where
  "js_rem a b = (if b = 0 then NaN else Num (sgn a * (\<bar>a\<bar> mod \<bar>b\<bar>)))"

text \<open>
  An entry of \<^verbatim>\<open>this.tracks\<close> as \<^verbatim>\<open>loadTracks\<close> builds it; \<open>element\<close> is the DOM node of
  the playlist item, named by a number.
\<close>

record track =
  src :: string
  title :: string
  element :: nat

text \<open>
  The player fields of the class (constructor, ``player state variables'') and the part of
  the page that the playback methods read and write: the nodes matching
  \<^verbatim>\<open>.track-item\<close> in document order, each with its \<^verbatim>\<open>data-src\<close> and \<^verbatim>\<open>data-title\<close>; the set
  of nodes whose class list contains \<^verbatim>\<open>active\<close>; \<^verbatim>\<open>audio.src\<close>; the text of the title and of
  the elapsed-time label; the value of the range control; the width of the fill and its
  \<^verbatim>\<open>playing\<close> class; the \<^verbatim>\<open>loading\<close> class of the container; and the number of
  \<^verbatim>\<open>audio.play()\<close> requests issued by \<^verbatim>\<open>playNext\<close> and \<^verbatim>\<open>playPrevious\<close>.
\<close>

record player_state =
  isPlaying :: bool
  currentTrackIndex :: int
  isShuffled :: bool
  isRepeating :: bool
  tracks :: "track list"
  trackItems :: "(nat \<times> string \<times> string) list"
  activeNodes :: "nat set"
  audioSrc :: string
  trackTitleText :: string
  progressBarValue :: string
  progressFillWidth :: string
  progressFillPlaying :: bool
  progressContainerLoading :: bool
  currentTimeText :: string
  playRequests :: nat

definition loadTracks :: "player_state \<Rightarrow> player_state" where
  "loadTracks s =
     s\<lparr>tracks := map (\<lambda>(item, dataSrc, dataTitle).
                        \<lparr>src = dataSrc, title = dataTitle, element = item\<rparr>) (trackItems s)\<rparr>"

definition loadTrack :: "jsnum \<Rightarrow> player_state \<Rightarrow> player_state" where
  "loadTrack index s =
     (case index of
        NaN \<Rightarrow> s
      | Num i \<Rightarrow>
          if 0 \<le> i \<and> i < int (length (tracks s)) then
            (let track = tracks s ! nat i
             in s\<lparr>currentTrackIndex := i,
                  audioSrc := src track,
                  trackTitleText := title track,
                  activeNodes :=
                    insert (element track) (activeNodes s - set (map fst (trackItems s))),
                  progressBarValue := ''0'',
                  progressFillWidth := ''0%'',
                  progressFillPlaying := False,
                  progressContainerLoading := False,
                  currentTimeText := ''0:00''\<rparr>)
          else s)"

text \<open>
  With shuffle on, the next index is \<^verbatim>\<open>Math.floor(Math.random() * this.tracks.length)\<close>: the
  floor of the product, rounded to a double, of a random double and the number of tracks. It
  is an integer; which one depends on the random draw and on the rounding, so \<^verbatim>\<open>playNext\<close>
  takes it as \<open>pick\<close>, the number that this expression evaluates to. It is only used when
  shuffle is on.
\<close>

definition playNext :: "int \<Rightarrow> player_state \<Rightarrow> player_state" where
  "playNext pick s =
     (let nextIndex =
            (if isShuffled s then Num pick
             else js_rem (currentTrackIndex s + 1) (int (length (tracks s))));
          s1 = loadTrack nextIndex s
      in if isPlaying s1 then s1\<lparr>playRequests := Suc (playRequests s1)\<rparr> else s1)"

definition playPrevious :: "player_state \<Rightarrow> player_state" where
  "playPrevious s =
     (let prevIndex =
            (if currentTrackIndex s = 0 then int (length (tracks s)) - 1
             else currentTrackIndex s - 1);
          s1 = loadTrack (Num prevIndex) s
      in if isPlaying s1 then s1\<lparr>playRequests := Suc (playRequests s1)\<rparr> else s1)"

definition toggleShuffle :: "player_state \<Rightarrow> player_state" where
  "toggleShuffle s = s\<lparr>isShuffled := \<not> isShuffled s\<rparr>"

text \<open>
  The player part of the constructor, applied to the page as it is when the script starts:
  the field initialisers, \<^verbatim>\<open>loadTracks()\<close>, \<^verbatim>\<open>loadTrack(0)\<close>.
\<close>

definition player_construct :: "player_state \<Rightarrow> player_state" where
  "player_construct page =
     loadTrack (Num 0)
       (loadTracks (page\<lparr>isPlaying := False, currentTrackIndex := 0, isShuffled := False,
                         isRepeating := False, tracks := []\<rparr>))"

text \<open>
  The bound of the data model on the current index, and the link between the track
  collection and the page that \<^verbatim>\<open>loadTracks\<close> establishes: the tracks' nodes are the
  \<^verbatim>\<open>.track-item\<close> nodes, in order, and a node occurs once.
\<close>

definition index_in_bounds :: "player_state \<Rightarrow> bool" where
  "index_in_bounds s \<longleftrightarrow>
     0 \<le> currentTrackIndex s \<and> currentTrackIndex s < int (length (tracks s))"

definition tracks_from_page :: "player_state \<Rightarrow> bool" where
  "tracks_from_page s \<longleftrightarrow>
     map element (tracks s) = map fst (trackItems s) \<and> distinct (map fst (trackItems s))"

text \<open>The positions of the tracks whose playlist item carries the \<^verbatim>\<open>active\<close> class.\<close>

definition active_tracks :: "player_state \<Rightarrow> nat list" where
  "active_tracks s =
     filter (\<lambda>j. element (tracks s ! j) \<in> activeNodes s) [0 ..< length (tracks s)]"

text \<open>
  A page with three playlist items A, B and C, of which the markup marks the second active
  (as it does one node outside the playlist), with progress indicators showing some
  position.
\<close>

definition page_ABC :: player_state where
  "page_ABC =
     \<lparr>isPlaying = False, currentTrackIndex = 0, isShuffled = False, isRepeating = False,
      tracks = [],
      trackItems = [(10, ''a.mp3'', ''A''), (11, ''b.mp3'', ''B''), (12, ''c.mp3'', ''C'')],
      activeNodes = {11, 40}, audioSrc = [], trackTitleText = [], progressBarValue = ''37'',
      progressFillWidth = ''37%'', progressFillPlaying = True, progressContainerLoading = True,
      currentTimeText = ''1:05'', playRequests = 0\<rparr>"

text \<open>The same page without any playlist item.\<close>

definition page_empty :: player_state where
  "page_empty = page_ABC\<lparr>trackItems := [], activeNodes := {40}\<rparr>"

text \<open>
  The calls that read or write the current index: \<^verbatim>\<open>loadTrack\<close> (a click in the playlist
  passes the position of the clicked item), \<^verbatim>\<open>playNext\<close> (the next button, or the end of
  a track) with the pick it would use, \<^verbatim>\<open>playPrevious\<close>, and \<^verbatim>\<open>toggleShuffle\<close>, which
  decides the branch that \<^verbatim>\<open>playNext\<close> takes.
\<close>

datatype player_op = LoadTrack jsnum | PlayNext int | PlayPrevious | ToggleShuffle

fun player_step :: "player_op \<Rightarrow> player_state \<Rightarrow> player_state" where
  "player_step (LoadTrack index) s = loadTrack index s"
| "player_step (PlayNext pick) s = playNext pick s"
| "player_step PlayPrevious s = playPrevious s"
| "player_step ToggleShuffle s = toggleShuffle s"

fun player_run :: "player_op list \<Rightarrow> player_state \<Rightarrow> player_state" where
  "player_run [] s = s"
| "player_run (c # cs) s = player_run cs (player_step c s)"

subsection \<open>Time formatting\<close>

text \<open>
  \<^verbatim>\<open>formatTime\<close> receives a number of the host language, a double: the position or the
  duration of the media element. A double is finite, in which case it is a real number, or
  one of the two infinities, or \<^verbatim>\<open>NaN\<close>; the duration of a stream of unknown length is
  \<^verbatim>\<open>Infinity\<close>.
\<close>

datatype jsdouble = Finite real | PosInfinity | NegInfinity | NotANumber

text \<open>
  \<open>js_fmod\<close> is \<^verbatim>\<open>%\<close> on finite numbers for a non-zero divisor: the remainder of the
  truncating division, with the sign of the dividend. It is exact on doubles, as
  \<^verbatim>\<open>Math.floor\<close> is.
\<close>

definition js_fmod :: "real \<Rightarrow> real \<Rightarrow> real" where
  "js_fmod x y = x - y * of_int (if 0 \<le> x / y then \<lfloor>x / y\<rfloor> else \<lceil>x / y\<rceil>)"

text \<open>
  The quotient \<^verbatim>\<open>seconds / 60\<close> is rounded to a double, and \<^verbatim>\<open>toString\<close> prints an integer
  from \<open>2^53\<close> on with the shortest digits that identify the double, not with the digits of
  its value. For a double \<open>x\<close> with \<open>0 \<le> x < 2^52\<close> neither makes a difference: the
  integers around the quotient are doubles, a double below a multiple of 60 lies at least
  one unit in its last place below it, which is more than 60 times half the spacing of the
  doubles below the quotient's next integer, so the rounded quotient has the floor of the
  exact one; and the minutes, below \<open>2^53\<close>, are printed digit by digit. That is the range
  the embedding covers for finite numbers; for the other finite numbers (negative ones, which
  no caller passes, and those from \<open>2^52\<close> on) the code returns a string as well, which
  the embedding does not determine: the result is \<open>None\<close> there.

  For the non-finite numbers the code's expressions evaluate as follows.
  \<^verbatim>\<open>Infinity / 60\<close> is \<^verbatim>\<open>Infinity\<close>, which \<^verbatim>\<open>Math.floor\<close> keeps and \<^verbatim>\<open>toString\<close> prints as
  \<^verbatim>\<open>Infinity\<close> (with a minus sign for the negative one); \<^verbatim>\<open>Infinity % 60\<close> is \<^verbatim>\<open>NaN\<close>, which
  \<^verbatim>\<open>Math.floor\<close> keeps and \<^verbatim>\<open>toString\<close> prints as \<^verbatim>\<open>NaN\<close>; and \<^verbatim>\<open>NaN\<close> gives \<^verbatim>\<open>NaN\<close> in
  both places.
\<close>

definition formatTime :: "jsdouble \<Rightarrow> string option" where
  "formatTime seconds =
     (case seconds of
        Finite x \<Rightarrow>
          if 0 \<le> x \<and> x < 2 ^ 52 then
            (let mins = \<lfloor>x / 60\<rfloor>;
                 secs = \<lfloor>js_fmod x 60\<rfloor>
             in Some (toString mins @ '':'' @ padStart 2 CHR ''0'' (toString secs)))
          else None
      | PosInfinity \<Rightarrow> Some (''Infinity'' @ '':'' @ padStart 2 CHR ''0'' ''NaN'')
      | NegInfinity \<Rightarrow> Some (''-Infinity'' @ '':'' @ padStart 2 CHR ''0'' ''NaN'')
      | NotANumber \<Rightarrow> Some (''NaN'' @ '':'' @ padStart 2 CHR ''0'' ''NaN''))"

text \<open>
  The shape that the specification gives to a formatted time, in its words ``minutes:seconds
  with seconds zero-padded to two digits, minutes unpadded'': decimal digits, at least one, a
  colon, and exactly two decimal digits.
\<close>

definition is_digit :: "char \<Rightarrow> bool" where
  "is_digit c \<longleftrightarrow> c \<in> set ''0123456789''"

definition spec_minutes_colon_seconds :: "string \<Rightarrow> bool" where
  "spec_minutes_colon_seconds str \<longleftrightarrow>
     (let mins = takeWhile (\<lambda>c. c \<noteq> CHR '':'') str;
          rest = dropWhile (\<lambda>c. c \<noteq> CHR '':'') str
      in mins \<noteq> [] \<and> list_all is_digit mins \<and> length rest = 3 \<and> list_all is_digit (tl rest))"

section \<open>Task list\<close>

text \<open>
  \<^verbatim>\<open>String.prototype.trim\<close> removes white space and line terminators from both ends. A
  code unit is a \<open>char\<close>, which covers the Latin-1 range; its white space and line
  terminators are TAB, LF, VT, FF, CR, SPACE and NO-BREAK SPACE.
\<close>

definition is_space :: "char \<Rightarrow> bool" where
  "is_space c \<longleftrightarrow> of_char c \<in> {9, 10, 11, 12, 13, 32, 160 :: nat}"

definition trim :: "string \<Rightarrow> string" where
  "trim s = rev (dropWhile is_space (rev (dropWhile is_space s)))"

text \<open>
  An entry of \<^verbatim>\<open>this.todos\<close>; the fields are \<^verbatim>\<open>id\<close>, \<^verbatim>\<open>text\<close>, \<^verbatim>\<open>completed\<close> and
  \<^verbatim>\<open>timestamp\<close> of the object literal in \<^verbatim>\<open>addTodo\<close>.
\<close>

record todo =
  todo_id :: int
  todo_text :: string
  completed :: bool
  timestamp :: nat

text \<open>
  The task-list fields of the class and the nodes the task-list methods write to: the value
  of the input, the text of the counter, and the list items that \<^verbatim>\<open>renderTodos\<close> builds
  (per item: the \<^verbatim>\<open>data-id\<close>, the text, and whether the box is checked).
\<close>

record todo_state =
  todos :: "todo list"
  todoIdCounter :: int
  todoInputValue :: string
  todoCountText :: string
  todoListItems :: "(int \<times> string \<times> bool) list"

definition renderTodos :: "todo_state \<Rightarrow> todo_state" where
  "renderTodos s =
     s\<lparr>todoListItems := map (\<lambda>t. (todo_id t, todo_text t, completed t)) (todos s)\<rparr>"

definition remainingCount :: "todo_state \<Rightarrow> nat" where
  "remainingCount s = length (filter (\<lambda>t. \<not> completed t) (todos s))"

definition updateTodoCount :: "todo_state \<Rightarrow> todo_state" where
  "updateTodoCount s = s\<lparr>todoCountText := toString (int (remainingCount s))\<rparr>"

text \<open>\<^verbatim>\<open>addTodo\<close> takes the value of \<^verbatim>\<open>new Date()\<close> at the call.\<close>

definition addTodo :: "nat \<Rightarrow> todo_state \<Rightarrow> todo_state" where
  "addTodo now s =
     (let text = trim (todoInputValue s)
      in if text = [] then s
         else
           (let todo = \<lparr>todo_id = todoIdCounter s, todo_text = text, completed = False,
                        timestamp = now\<rparr>;
                s1 = s\<lparr>todoIdCounter := todoIdCounter s + 1\<rparr>;
                s2 = s1\<lparr>todos := todos s1 @ [todo]\<rparr>;
                s3 = s2\<lparr>todoInputValue := []\<rparr>
            in updateTodoCount (renderTodos s3)))"

text \<open>
  \<^verbatim>\<open>Array.prototype.find\<close> returns the first entry that satisfies the predicate, or
  \<^verbatim>\<open>undefined\<close>; \<open>find_index\<close> gives the position of that entry, so that the assignment to
  the entry's field is an update of the list at that position.
\<close>

fun find_index :: "('a \<Rightarrow> bool) \<Rightarrow> 'a list \<Rightarrow> nat option" where
  "find_index P [] = None"
| "find_index P (x # xs) =
     (if P x then Some 0 else map_option Suc (find_index P xs))"

definition toggleTodo :: "int \<Rightarrow> todo_state \<Rightarrow> todo_state" where
  "toggleTodo i s =
     (case find_index (\<lambda>t. todo_id t = i) (todos s) of
        Some k \<Rightarrow>
          updateTodoCount (renderTodos
            (s\<lparr>todos := (todos s)[k := (todos s ! k)\<lparr>completed := \<not> completed (todos s ! k)\<rparr>]\<rparr>))
      | None \<Rightarrow> s)"

definition deleteTodo :: "int \<Rightarrow> todo_state \<Rightarrow> todo_state" where
  "deleteTodo i s =
     updateTodoCount (renderTodos (s\<lparr>todos := filter (\<lambda>t. todo_id t \<noteq> i) (todos s)\<rparr>))"

text \<open>
  What can happen to the task list: the user edits the input, asks to add (button or Enter
  key) at some time, or clicks the box or the delete button of a rendered item.
\<close>

datatype todo_event =
    InputEdited string
  | AddRequested nat
  | ToggleClicked int
  | DeleteClicked int

fun todo_step :: "todo_event \<Rightarrow> todo_state \<Rightarrow> todo_state" where
  "todo_step (InputEdited v) s = s\<lparr>todoInputValue := v\<rparr>"
| "todo_step (AddRequested now) s = addTodo now s"
| "todo_step (ToggleClicked i) s = toggleTodo i s"
| "todo_step (DeleteClicked i) s = deleteTodo i s"

fun todo_run :: "todo_event list \<Rightarrow> todo_state \<Rightarrow> todo_state" where
  "todo_run [] s = s"
| "todo_run (e # es) s = todo_run es (todo_step e s)"

text \<open>
  The task list after the constructor; the text of the counter and the items of the list
  are those of the page's markup.
\<close>

definition todo_init :: "string \<Rightarrow> (int \<times> string \<times> bool) list \<Rightarrow> todo_state" where
  "todo_init countText items =
     \<lparr>todos = [], todoIdCounter = 0, todoInputValue = [], todoCountText = countText,
      todoListItems = items\<rparr>"

text \<open>
  The data-model invariant of the collection: identifiers increase strictly along the
  collection (so they are pairwise different) and all lie below the counter.
\<close>

definition ids_increasing :: "todo_state \<Rightarrow> bool" where
  "ids_increasing s \<longleftrightarrow>
     sorted_wrt (<) (map todo_id (todos s)) \<and> (\<forall>t \<in> set (todos s). todo_id t < todoIdCounter s)"

text \<open>
  A task list after two additions, ``Study'' (typed with surrounding blanks) and ``Rest''.
\<close>

definition todo_AB :: todo_state where
  "todo_AB =
     todo_run [InputEdited ''  Study '', AddRequested 100, InputEdited ''Rest'', AddRequested 200]
       (todo_init ''0'' [])"

section \<open>Properties of the countdown timer\<close>

lemma timer_inv_init: "timer_inv (timer_init l)"
  by (simp add: timer_inv_def timer_init_def updateTimerDisplay_def)

lemma timer_inv_pauseTimer: "timer_inv s \<Longrightarrow> timer_inv (pauseTimer s)"
  by (auto simp: timer_inv_def pauseTimer_def Let_def split: option.splits)

lemma timer_inv_resetTimer: "timer_inv s \<Longrightarrow> timer_inv (resetTimer s)"
  by (auto simp: timer_inv_def resetTimer_def pauseTimer_def updateTimerDisplay_def Let_def
      split: option.splits)

lemma timer_inv_setTimer: "0 \<le> m \<Longrightarrow> timer_inv s \<Longrightarrow> timer_inv (setTimer m s)"
  by (auto simp: timer_inv_def setTimer_def pauseTimer_def updateTimerDisplay_def Let_def
      split: option.splits)

lemma timer_inv_startTimer: "timer_inv s \<Longrightarrow> timer_inv (startTimer s)"
  by (auto simp: timer_inv_def startTimer_def split: option.splits)

lemma timer_inv_tick: "timer_inv s \<Longrightarrow> timer_inv (tick s)"
  by (auto simp: timer_inv_def tick_def timerComplete_def pauseTimer_def updateTimerDisplay_def
      Let_def split: option.splits)

lemma timer_inv_step: "timer_inv s \<Longrightarrow> timer_inv (timer_step e s)"
proof (cases e)
  case (PresetClick p)
  assume "timer_inv s"
  moreover have "0 \<le> preset_minutes p" by (cases p) simp_all
  ultimately show ?thesis using PresetClick by (simp add: timer_inv_setTimer)
next
  case ResetTimeoutFires
  assume inv: "timer_inv s"
  have "timer_inv (s\<lparr>pendingResets := pendingResets s - 1\<rparr>)"
    using inv by (simp add: timer_inv_def split: option.splits)
  then show ?thesis using ResetTimeoutFires inv by (simp add: timer_inv_resetTimer)
qed (simp_all add: timer_inv_startTimer timer_inv_pauseTimer timer_inv_resetTimer timer_inv_tick)

lemma timer_inv_run: "timer_inv s \<Longrightarrow> timer_inv (timer_run es s)"
  by (induction es arbitrary: s) (simp_all add: timer_inv_step)

text \<open>
  Claim C1. \<^verbatim>\<open>startTimer\<close> changes nothing when the timer is already running or when the
  remaining time is exactly 0:00. Otherwise it schedules the tick. A tick of the scheduled
  handle takes one second off when seconds are positive; borrows a minute (minutes minus one,
  seconds 59) when seconds are 0 and minutes positive; and when both are 0 it completes
  instead of decrementing: the remaining time stays 0:00, the timer is stopped, the display
  shows the completion message and one delayed reset is scheduled. From 0:01 the next tick
  gives 0:00 with the timer still running, and the tick after that completes. In every state
  the timer can reach from its initial state, minutes and seconds are non-negative.
\<close>

theorem startTimer_tick_countdown:
  "(timerRunning s \<or> (timerMinutes s = 0 \<and> timerSeconds s = 0) \<longrightarrow> startTimer s = s) \<and>
   (timer_inv s \<and> \<not> timerRunning s \<and> \<not> (timerMinutes s = 0 \<and> timerSeconds s = 0) \<longrightarrow>
      timerRunning (startTimer s) \<and> timerInterval (startTimer s) = Some (nextHandle s) \<and>
      intervals (startTimer s) = {nextHandle s} \<and>
      timerMinutes (startTimer s) = timerMinutes s \<and>
      timerSeconds (startTimer s) = timerSeconds s) \<and>
   (timer_inv s \<and> timerInterval s = Some h \<longrightarrow>
      (let s' = timer_step (IntervalFires h) s in
         (0 < timerSeconds s \<longrightarrow>
            timerMinutes s' = timerMinutes s \<and> timerSeconds s' = timerSeconds s - 1 \<and>
            timerRunning s' \<and> timerInterval s' = Some h) \<and>
         (timerSeconds s = 0 \<and> 0 < timerMinutes s \<longrightarrow>
            timerMinutes s' = timerMinutes s - 1 \<and> timerSeconds s' = 59 \<and>
            timerRunning s' \<and> timerInterval s' = Some h) \<and>
         (timerSeconds s = 0 \<and> timerMinutes s = 0 \<longrightarrow>
            s' = timerComplete s \<and> timerMinutes s' = 0 \<and> timerSeconds s' = 0 \<and>
            \<not> timerRunning s' \<and> timerInterval s' = None \<and> intervals s' = {} \<and>
            timerDisplay s' = ''Session Complete!'' \<and>
            pendingResets s' = Suc (pendingResets s)) \<and>
         0 \<le> timerMinutes s' \<and> 0 \<le> timerSeconds s')) \<and>
   (timer_inv s \<and> timerInterval s = Some h \<and> timerMinutes s = 0 \<and> timerSeconds s = 1 \<longrightarrow>
      (let s1 = timer_step (IntervalFires h) s; s2 = timer_step (IntervalFires h) s1 in
         timerMinutes s1 = 0 \<and> timerSeconds s1 = 0 \<and> timerRunning s1 \<and>
         s2 = timerComplete s1 \<and> timerMinutes s2 = 0 \<and> timerSeconds s2 = 0 \<and>
         \<not> timerRunning s2)) \<and>
   0 \<le> timerMinutes (timer_run es (timer_init l)) \<and>
   0 \<le> timerSeconds (timer_run es (timer_init l))"
proof -
  have noop: "timerRunning s \<or> (timerMinutes s = 0 \<and> timerSeconds s = 0) \<longrightarrow> startTimer s = s"
    by (auto simp: startTimer_def)
  have start: "timer_inv s \<and> \<not> timerRunning s \<and> \<not> (timerMinutes s = 0 \<and> timerSeconds s = 0) \<longrightarrow>
      timerRunning (startTimer s) \<and> timerInterval (startTimer s) = Some (nextHandle s) \<and>
      intervals (startTimer s) = {nextHandle s} \<and>
      timerMinutes (startTimer s) = timerMinutes s \<and>
      timerSeconds (startTimer s) = timerSeconds s"
    by (auto simp: startTimer_def timer_inv_def)
  have ticks: "timer_inv s \<and> timerInterval s = Some h \<longrightarrow>
      (let s' = timer_step (IntervalFires h) s in
         (0 < timerSeconds s \<longrightarrow>
            timerMinutes s' = timerMinutes s \<and> timerSeconds s' = timerSeconds s - 1 \<and>
            timerRunning s' \<and> timerInterval s' = Some h) \<and>
         (timerSeconds s = 0 \<and> 0 < timerMinutes s \<longrightarrow>
            timerMinutes s' = timerMinutes s - 1 \<and> timerSeconds s' = 59 \<and>
            timerRunning s' \<and> timerInterval s' = Some h) \<and>
         (timerSeconds s = 0 \<and> timerMinutes s = 0 \<longrightarrow>
            s' = timerComplete s \<and> timerMinutes s' = 0 \<and> timerSeconds s' = 0 \<and>
            \<not> timerRunning s' \<and> timerInterval s' = None \<and> intervals s' = {} \<and>
            timerDisplay s' = ''Session Complete!'' \<and>
            pendingResets s' = Suc (pendingResets s)) \<and>
         0 \<le> timerMinutes s' \<and> 0 \<le> timerSeconds s')"
    by (auto simp: timer_inv_def tick_def timerComplete_def pauseTimer_def
        updateTimerDisplay_def Let_def)
  have last: "timer_inv s \<and> timerInterval s = Some h \<and> timerMinutes s = 0 \<and> timerSeconds s = 1 \<longrightarrow>
      (let s1 = timer_step (IntervalFires h) s; s2 = timer_step (IntervalFires h) s1 in
         timerMinutes s1 = 0 \<and> timerSeconds s1 = 0 \<and> timerRunning s1 \<and>
         s2 = timerComplete s1 \<and> timerMinutes s2 = 0 \<and> timerSeconds s2 = 0 \<and>
         \<not> timerRunning s2)"
    by (auto simp: timer_inv_def tick_def timerComplete_def pauseTimer_def
        updateTimerDisplay_def Let_def)
  have "timer_inv (timer_run es (timer_init l))"
    by (rule timer_inv_run) (rule timer_inv_init)
  then have nonneg: "0 \<le> timerMinutes (timer_run es (timer_init l)) \<and>
      0 \<le> timerSeconds (timer_run es (timer_init l))"
    by (simp add: timer_inv_def)
  from noop start ticks last nonneg show ?thesis by blast
qed


theorem startTimer_tick_countdown_witness:
  "timer_inv (timer_init ''Start'') \<and> \<not> timerRunning (timer_init ''Start'') \<and>
   timer_inv (startTimer (timer_init ''Start'')) \<and>
   timer_inv (startTimer ((timer_init ''Start'')\<lparr>timerMinutes := 0, timerSeconds := 1\<rparr>)) \<and>
   timerInterval (startTimer ((timer_init ''Start'')\<lparr>timerMinutes := 0, timerSeconds := 1\<rparr>)) =
     Some 1 \<and>
   startTimer (startTimer (timer_init ''Start'')) = startTimer (timer_init ''Start'') \<and>
   timerRunning (startTimer (timer_init ''Start'')) \<and>
   timerInterval (startTimer (timer_init ''Start'')) = Some 1 \<and>
   timerMinutes (timer_step (IntervalFires 1) (startTimer (timer_init ''Start''))) = 59 \<and>
   timerSeconds (timer_step (IntervalFires 1) (startTimer (timer_init ''Start''))) = 59 \<and>
   timerSeconds (timer_step (IntervalFires 1)
     (startTimer ((timer_init ''Start'')\<lparr>timerMinutes := 0, timerSeconds := 1\<rparr>))) = 0 \<and>
   timerRunning (timer_step (IntervalFires 1)
     (startTimer ((timer_init ''Start'')\<lparr>timerMinutes := 0, timerSeconds := 1\<rparr>))) \<and>
   \<not> timerRunning (timer_step (IntervalFires 1) (timer_step (IntervalFires 1)
     (startTimer ((timer_init ''Start'')\<lparr>timerMinutes := 0, timerSeconds := 1\<rparr>)))) \<and>
   timerDisplay (timer_step (IntervalFires 1) (timer_step (IntervalFires 1)
     (startTimer ((timer_init ''Start'')\<lparr>timerMinutes := 0, timerSeconds := 1\<rparr>)))) =
     ''Session Complete!'' \<and>
   startTimer ((timer_init ''Start'')\<lparr>timerMinutes := 0, timerSeconds := 0\<rparr>) =
     (timer_init ''Start'')\<lparr>timerMinutes := 0, timerSeconds := 0\<rparr>"
proof -
  let ?idle = "timer_init ''Start''"
  let ?run = "startTimer ?idle"
  let ?last = "startTimer (?idle\<lparr>timerMinutes := 0, timerSeconds := 1\<rparr>)"
  let ?zero = "timer_step (IntervalFires 1) ?last"
  have i1: "timer_inv ?idle \<and> \<not> timerRunning ?idle \<and>
      \<not> (timerMinutes ?idle = 0 \<and> timerSeconds ?idle = 0)"
    by (simp add: timer_inv_def timer_init_def updateTimerDisplay_def)
  have i2: "timerRunning ?run \<and> timer_inv ?run \<and> timerInterval ?run = Some 1 \<and>
      timerSeconds ?run = 0 \<and> 0 < timerMinutes ?run"
    by (simp add: timer_inv_def timer_init_def updateTimerDisplay_def startTimer_def)
  have i3: "timer_inv ?last \<and> timerInterval ?last = Some 1 \<and> timerMinutes ?last = 0 \<and>
      timerSeconds ?last = 1"
    by (simp add: timer_inv_def timer_init_def updateTimerDisplay_def startTimer_def)
  have i4: "timer_inv ?zero \<and> timerInterval ?zero = Some 1 \<and> timerMinutes ?zero = 0 \<and>
      timerSeconds ?zero = 0"
    by (simp add: timer_inv_def timer_init_def updateTimerDisplay_def startTimer_def tick_def)
  have i5: "timerMinutes (?idle\<lparr>timerMinutes := 0, timerSeconds := 0\<rparr>) = 0 \<and>
      timerSeconds (?idle\<lparr>timerMinutes := 0, timerSeconds := 0\<rparr>) = 0"
    by simp
  show ?thesis
    using i1 i2 i3 i4 i5
      startTimer_tick_countdown [of ?idle 1 "[]" "[]"]
      startTimer_tick_countdown [of ?run 1 "[]" "[]"]
      startTimer_tick_countdown [of ?last 1 "[]" "[]"]
      startTimer_tick_countdown [of ?zero 1 "[]" "[]"]
      startTimer_tick_countdown [of "?idle\<lparr>timerMinutes := 0, timerSeconds := 0\<rparr>" 1 "[]" "[]"]
    by (simp add: Let_def timer_inv_def timer_init_def updateTimerDisplay_def startTimer_def
        tick_def timerComplete_def pauseTimer_def)
qed

lemma timer_run_append: "timer_run (es @ fs) s = timer_run fs (timer_run es s)"
  by (induction es arbitrary: s) simp_all

lemma resetTimer_fields:
  "timerMinutes (resetTimer s) = 60 \<and> timerSeconds (resetTimer s) = 0 \<and>
   \<not> timerRunning (resetTimer s) \<and> timerDisplay (resetTimer s) = ''60:00''"
  by (simp add: resetTimer_def updateTimerDisplay_def pauseTimer_def Let_def toString_def
      padStart_def dec.simps digit_char_def split: option.splits)

lemma timer_inv_idle:
  "timer_inv s \<Longrightarrow> \<not> timerRunning s \<Longrightarrow> timerInterval s = None \<and> intervals s = {}"
  by (auto simp: timer_inv_def)

text \<open>
  Claim C7. \<^verbatim>\<open>resetTimer\<close> always leaves 60:00 and a stopped timer, whatever preset was
  chosen before. In particular, from any state of the timer, choosing the 30-minute preset,
  starting, letting any number of ticks pass, pausing and resetting ends at 60:00 with no
  tick scheduled, although the pause right after the start left 30 minutes.
\<close>

theorem resetTimer_restores_default:
  "timerMinutes (resetTimer s) = 60 \<and> timerSeconds (resetTimer s) = 0 \<and>
   \<not> timerRunning (resetTimer s) \<and>
   (timer_inv s \<longrightarrow>
      timerInterval (resetTimer s) = None \<and> intervals (resetTimer s) = {} \<and>
      timerMinutes (pauseTimer (startTimer (setTimer 30 s))) = 30 \<and>
      (let s' = timer_run ([PresetClick Preset30, StartClick] @ map IntervalFires hs @
                           [PauseClick, ResetClick]) s
       in timerMinutes s' = 60 \<and> timerSeconds s' = 0 \<and> \<not> timerRunning s' \<and>
          timerInterval s' = None \<and> intervals s' = {} \<and> timerDisplay s' = ''60:00''))"
proof -
  have always: "timerMinutes (resetTimer t) = 60 \<and> timerSeconds (resetTimer t) = 0 \<and>
      \<not> timerRunning (resetTimer t) \<and> timerDisplay (resetTimer t) = ''60:00''" for t
    by (rule resetTimer_fields)
  have stopped: "timerInterval (resetTimer t) = None \<and> intervals (resetTimer t) = {}"
    if "timer_inv t" for t
    using timer_inv_idle [OF timer_inv_resetTimer [OF that]] always by simp
  have preset: "timerMinutes (pauseTimer (startTimer (setTimer 30 s))) = 30"
    by (simp add: pauseTimer_def startTimer_def setTimer_def updateTimerDisplay_def Let_def
        split: option.splits)
  {
    assume inv: "timer_inv s"
    let ?before = "timer_run ([PresetClick Preset30, StartClick] @ map IntervalFires hs @
        [PauseClick]) s"
    have run: "timer_run ([PresetClick Preset30, StartClick] @ map IntervalFires hs @
        [PauseClick, ResetClick]) s = resetTimer ?before"
      using timer_run_append [of "[PresetClick Preset30, StartClick] @ map IntervalFires hs @
        [PauseClick]" "[ResetClick]" s] by simp
    have "timer_inv ?before" using inv by (rule timer_inv_run)
    then have "timerInterval (resetTimer ?before) = None \<and> intervals (resetTimer ?before) = {}"
      by (rule stopped)
    with run always [of ?before] stopped [OF inv] preset
    have "timerInterval (resetTimer s) = None \<and> intervals (resetTimer s) = {} \<and>
      timerMinutes (pauseTimer (startTimer (setTimer 30 s))) = 30 \<and>
      (let s' = timer_run ([PresetClick Preset30, StartClick] @ map IntervalFires hs @
                           [PauseClick, ResetClick]) s
       in timerMinutes s' = 60 \<and> timerSeconds s' = 0 \<and> \<not> timerRunning s' \<and>
          timerInterval s' = None \<and> intervals s' = {} \<and> timerDisplay s' = ''60:00'')"
      by (simp add: Let_def)
  }
  with always [of s] show ?thesis by blast
qed

theorem resetTimer_restores_default_witness:
  "timer_inv (timer_init ''Start'') \<and>
   timerMinutes (timer_run [PresetClick Preset30, StartClick, IntervalFires 1, IntervalFires 1,
                            PauseClick] (timer_init ''Start'')) = 29 \<and>
   timerSeconds (timer_run [PresetClick Preset30, StartClick, IntervalFires 1, IntervalFires 1,
                            PauseClick] (timer_init ''Start'')) = 58 \<and>
   timerMinutes (timer_run [PresetClick Preset30, StartClick, IntervalFires 1, IntervalFires 1,
                            PauseClick, ResetClick] (timer_init ''Start'')) = 60 \<and>
   timerSeconds (timer_run [PresetClick Preset30, StartClick, IntervalFires 1, IntervalFires 1,
                            PauseClick, ResetClick] (timer_init ''Start'')) = 0 \<and>
   intervals (timer_run [PresetClick Preset30, StartClick, IntervalFires 1, IntervalFires 1,
                            PauseClick, ResetClick] (timer_init ''Start'')) = {}"
proof -
  have before: "timerMinutes (timer_run [PresetClick Preset30, StartClick, IntervalFires 1,
      IntervalFires 1, PauseClick] (timer_init ''Start'')) = 29 \<and>
    timerSeconds (timer_run [PresetClick Preset30, StartClick, IntervalFires 1,
      IntervalFires 1, PauseClick] (timer_init ''Start'')) = 58"
    by (simp add: timer_init_def setTimer_def startTimer_def pauseTimer_def tick_def
        updateTimerDisplay_def Let_def)
  show ?thesis
    using before timer_inv_init [of "''Start''"]
      resetTimer_restores_default [of "timer_init ''Start''" "[1, 1]"]
    by (simp add: Let_def)
qed

text \<open>
  Claim C9. On a running timer \<^verbatim>\<open>pauseTimer\<close> keeps minutes, seconds and the display,
  clears the running flag and the handle, and unschedules the handle, so that no tick
  changes the paused timer any more. On a timer that is not running it changes nothing. In
  every state the timer can reach from its initial state, the handle is present exactly
  when the timer is running.
\<close>

theorem pauseTimer_preserves_time:
  "(timerRunning s \<longrightarrow>
      timerMinutes (pauseTimer s) = timerMinutes s \<and>
      timerSeconds (pauseTimer s) = timerSeconds s \<and>
      timerDisplay (pauseTimer s) = timerDisplay s \<and>
      \<not> timerRunning (pauseTimer s) \<and> timerInterval (pauseTimer s) = None \<and>
      (\<forall>h. timerInterval s = Some h \<longrightarrow> h \<notin> intervals (pauseTimer s))) \<and>
   (timerRunning s \<and> timer_inv s \<longrightarrow>
      intervals (pauseTimer s) = {} \<and>
      (\<forall>h. timer_step (IntervalFires h) (pauseTimer s) = pauseTimer s)) \<and>
   (\<not> timerRunning s \<longrightarrow> pauseTimer s = s) \<and>
   (timerRunning (timer_run es (timer_init l)) \<longleftrightarrow>
      timerInterval (timer_run es (timer_init l)) \<noteq> None)"
proof -
  have "timer_inv (timer_run es (timer_init l))"
    by (rule timer_inv_run) (rule timer_inv_init)
  then have "timerRunning (timer_run es (timer_init l)) \<longleftrightarrow>
      timerInterval (timer_run es (timer_init l)) \<noteq> None"
    by (simp add: timer_inv_def)
  then show ?thesis
    by (auto simp: pauseTimer_def timer_inv_def Let_def split: option.splits)
qed

theorem pauseTimer_preserves_time_witness:
  "timerRunning (timer_step (IntervalFires 1) (startTimer (timer_init ''Start''))) \<and>
   timerMinutes (pauseTimer (timer_step (IntervalFires 1) (startTimer (timer_init ''Start'')))) = 59 \<and>
   timerSeconds (pauseTimer (timer_step (IntervalFires 1) (startTimer (timer_init ''Start'')))) = 59 \<and>
   intervals (pauseTimer (timer_step (IntervalFires 1) (startTimer (timer_init ''Start'')))) = {} \<and>
   timer_step (IntervalFires 1)
     (pauseTimer (timer_step (IntervalFires 1) (startTimer (timer_init ''Start'')))) =
     pauseTimer (timer_step (IntervalFires 1) (startTimer (timer_init ''Start''))) \<and>
   \<not> timerRunning (timer_init ''Start'') \<and>
   pauseTimer (timer_init ''Start'') = timer_init ''Start''"
proof -
  let ?run = "timer_step (IntervalFires 1) (startTimer (timer_init ''Start''))"
  have r: "timerRunning ?run \<and> timer_inv ?run \<and> timerMinutes ?run = 59 \<and>
      timerSeconds ?run = 59 \<and> timerInterval ?run = Some 1"
    by (simp add: timer_inv_def timer_init_def startTimer_def tick_def updateTimerDisplay_def)
  have i: "\<not> timerRunning (timer_init ''Start'')"
    by (simp add: timer_init_def updateTimerDisplay_def)
  show ?thesis
    using r i pauseTimer_preserves_time [of ?run "[]" "[]"]
      pauseTimer_preserves_time [of "timer_init ''Start''" "[]" "[]"]
    by simp
qed

section \<open>Properties of the playback controller\<close>

lemma loadTrack_tracks [simp]: "tracks (loadTrack ix s) = tracks s"
  by (simp add: loadTrack_def Let_def split: jsnum.splits)

lemma loadTrack_flags [simp]:
  "isShuffled (loadTrack ix s) = isShuffled s" "isPlaying (loadTrack ix s) = isPlaying s"
  "trackItems (loadTrack ix s) = trackItems s"
  by (simp_all add: loadTrack_def Let_def split: jsnum.splits)

lemma loadTrack_index:
  "currentTrackIndex (loadTrack ix s) =
     (case ix of NaN \<Rightarrow> currentTrackIndex s
      | Num i \<Rightarrow> if 0 \<le> i \<and> i < int (length (tracks s)) then i else currentTrackIndex s)"
  by (simp add: loadTrack_def Let_def split: jsnum.splits)

lemma index_in_bounds_loadTrack: "index_in_bounds s \<Longrightarrow> index_in_bounds (loadTrack ix s)"
  by (simp add: index_in_bounds_def loadTrack_index split: jsnum.splits)

lemma playNext_fields [simp]:
  "tracks (playNext r s) = tracks s" "isShuffled (playNext r s) = isShuffled s"
  "isPlaying (playNext r s) = isPlaying s" "trackItems (playNext r s) = trackItems s"
  by (simp_all add: playNext_def Let_def)

lemma playNext_index:
  "currentTrackIndex (playNext r s) =
     currentTrackIndex (loadTrack (if isShuffled s then Num r
             else js_rem (currentTrackIndex s + 1) (int (length (tracks s)))) s)"
  by (simp add: playNext_def Let_def)

lemma playPrevious_fields [simp]:
  "tracks (playPrevious s) = tracks s" "isShuffled (playPrevious s) = isShuffled s"
  "isPlaying (playPrevious s) = isPlaying s" "trackItems (playPrevious s) = trackItems s"
  by (simp_all add: playPrevious_def Let_def)

lemma playPrevious_index:
  "currentTrackIndex (playPrevious s) =
     currentTrackIndex (loadTrack (Num (if currentTrackIndex s = 0 then int (length (tracks s)) - 1
             else currentTrackIndex s - 1)) s)"
  by (simp add: playPrevious_def Let_def)

lemma js_rem_nonneg: "0 \<le> a \<Longrightarrow> 0 < b \<Longrightarrow> js_rem a b = Num (a mod b)"
  by (cases "a = 0") (simp_all add: js_rem_def)

lemma playNext_sequential:
  assumes "\<not> isShuffled s" "index_in_bounds s"
  shows "currentTrackIndex (playNext r s) = (currentTrackIndex s + 1) mod int (length (tracks s))"
proof -
  from assms(2) have b: "0 \<le> currentTrackIndex s" "0 < int (length (tracks s))"
    by (auto simp: index_in_bounds_def)
  then have "js_rem (currentTrackIndex s + 1) (int (length (tracks s))) =
      Num ((currentTrackIndex s + 1) mod int (length (tracks s)))"
    by (simp add: js_rem_nonneg)
  with assms(1) b show ?thesis
    by (simp add: playNext_index loadTrack_index)
qed

lemma index_in_bounds_playNext: "index_in_bounds s \<Longrightarrow> index_in_bounds (playNext r s)"
  by (simp add: index_in_bounds_def playNext_index loadTrack_index split: jsnum.splits)

lemma index_in_bounds_playPrevious: "index_in_bounds s \<Longrightarrow> index_in_bounds (playPrevious s)"
  by (simp add: index_in_bounds_def playPrevious_index loadTrack_index)

lemma fold_playNext_sequential:
  "\<not> isShuffled s \<Longrightarrow> index_in_bounds s \<Longrightarrow>
   \<not> isShuffled (fold playNext rs s) \<and> index_in_bounds (fold playNext rs s) \<and>
   tracks (fold playNext rs s) = tracks s \<and>
   currentTrackIndex (fold playNext rs s) =
     (currentTrackIndex s + int (length rs)) mod int (length (tracks s))"
proof (induction rs arbitrary: s)
  case Nil
  then show ?case by (simp add: index_in_bounds_def)
next
  case (Cons r rs)
  have step: "\<not> isShuffled (playNext r s)" "index_in_bounds (playNext r s)"
    using Cons.prems by (simp_all add: index_in_bounds_playNext)
  have idx: "currentTrackIndex (playNext r s) =
      (currentTrackIndex s + 1) mod int (length (tracks s))"
    using Cons.prems by (rule playNext_sequential)
  from Cons.IH [OF step] idx show ?case
    by (simp add: mod_add_left_eq add.assoc)
qed

text \<open>
  Claim C2. With shuffle off and the current index within bounds, \<^verbatim>\<open>playNext\<close> moves the
  current index one forward modulo the number of tracks, and as many calls as there are
  tracks bring the index back to where it was (with no track at all, that is no call and
  the state as it was). With three tracks, starting at index 0, three calls give the indices
  1, 2, 0.
\<close>

theorem playNext_cycles:
  "(\<not> isShuffled s \<and> index_in_bounds s \<longrightarrow>
      currentTrackIndex (playNext r s) =
        (currentTrackIndex s + 1) mod int (length (tracks s)) \<and>
      (length rs = length (tracks s) \<longrightarrow>
         currentTrackIndex (fold playNext rs s) = currentTrackIndex s)) \<and>
   (tracks s = [] \<and> length rs = length (tracks s) \<longrightarrow> fold playNext rs s = s) \<and>
   (\<not> isShuffled s \<and> length (tracks s) = 3 \<and> currentTrackIndex s = 0 \<longrightarrow>
      map currentTrackIndex
        [playNext r1 s, playNext r2 (playNext r1 s), playNext r3 (playNext r2 (playNext r1 s))] =
        [1, 2, 0])"
proof -
  have a: "currentTrackIndex (playNext r s) =
        (currentTrackIndex s + 1) mod int (length (tracks s))"
    if "\<not> isShuffled s" "index_in_bounds s"
    using that by (rule playNext_sequential)
  have b: "currentTrackIndex (fold playNext rs s) = currentTrackIndex s"
    if "\<not> isShuffled s" "index_in_bounds s" "length rs = length (tracks s)"
    using fold_playNext_sequential [OF that(1,2), of rs] that(2,3)
    by (simp add: index_in_bounds_def)
  have c: "map currentTrackIndex
        [playNext r1 s, playNext r2 (playNext r1 s), playNext r3 (playNext r2 (playNext r1 s))] =
        [1, 2, 0]"
    if h: "\<not> isShuffled s" "length (tracks s) = 3" "currentTrackIndex s = 0"
  proof -
    have ib: "index_in_bounds s" using h by (simp add: index_in_bounds_def)
    have s1: "currentTrackIndex (playNext r1 s) = 1"
      using playNext_sequential [OF h(1) ib, of r1] h by simp
    have ib1: "index_in_bounds (playNext r1 s)" using ib by (rule index_in_bounds_playNext)
    have s2: "currentTrackIndex (playNext r2 (playNext r1 s)) = 2"
      using playNext_sequential [OF _ ib1, of r2] h s1 by simp
    have ib2: "index_in_bounds (playNext r2 (playNext r1 s))"
      using ib1 by (rule index_in_bounds_playNext)
    have s3: "currentTrackIndex (playNext r3 (playNext r2 (playNext r1 s))) = 0"
      using playNext_sequential [OF _ ib2, of r3] h s2 by simp
    from s1 s2 s3 show ?thesis by simp
  qed
  have d: "fold playNext rs s = s" if "tracks s = []" "length rs = length (tracks s)"
    using that by simp
  from a b c d show ?thesis by blast
qed


theorem playNext_cycles_witness:
  "\<not> isShuffled (player_construct page_ABC) \<and>
   index_in_bounds (player_construct page_ABC) \<and>
   length (tracks (player_construct page_ABC)) = 3 \<and>
   currentTrackIndex (player_construct page_ABC) = 0 \<and>
   currentTrackIndex (playNext 0 (player_construct page_ABC)) = 1 \<and>
   currentTrackIndex (fold playNext [0, 0, 0] (player_construct page_ABC)) = 0 \<and>
   map currentTrackIndex
     [playNext 0 (player_construct page_ABC),
      playNext 0 (playNext 0 (player_construct page_ABC)),
      playNext 0 (playNext 0 (playNext 0 (player_construct page_ABC)))] = [1, 2, 0]"
proof -
  have h: "\<not> isShuffled (player_construct page_ABC) \<and>
      index_in_bounds (player_construct page_ABC) \<and>
      length (tracks (player_construct page_ABC)) = 3 \<and>
      currentTrackIndex (player_construct page_ABC) = 0"
    by (simp add: page_ABC_def player_construct_def loadTracks_def loadTrack_def
        index_in_bounds_def Let_def)
  show ?thesis
    using h playNext_cycles [of "player_construct page_ABC" 0 "[0, 0, 0]" 0 0 0]
    by simp
qed

lemma index_in_bounds_construct:
  "trackItems page \<noteq> [] \<Longrightarrow> index_in_bounds (player_construct page)"
  by (simp add: index_in_bounds_def player_construct_def loadTrack_index loadTracks_def)

lemma index_in_bounds_step: "index_in_bounds s \<Longrightarrow> index_in_bounds (player_step c s)"
  by (cases c)
    (simp_all add: index_in_bounds_loadTrack index_in_bounds_playNext
      index_in_bounds_playPrevious, simp add: index_in_bounds_def toggleShuffle_def)

lemma index_in_bounds_run: "index_in_bounds s \<Longrightarrow> index_in_bounds (player_run cs s)"
  by (induction cs arbitrary: s) (simp_all add: index_in_bounds_step)

lemma no_tracks_step:
  "tracks s = [] \<Longrightarrow>
   tracks (player_step c s) = [] \<and> currentTrackIndex (player_step c s) = currentTrackIndex s"
  by (cases c)
    (simp_all add: loadTrack_index playNext_index playPrevious_index toggleShuffle_def
      split: jsnum.splits)

lemma no_tracks_run:
  "tracks s = [] \<Longrightarrow>
   tracks (player_run cs s) = [] \<and> currentTrackIndex (player_run cs s) = currentTrackIndex s"
proof (induction cs arbitrary: s)
  case Nil
  then show ?case by simp
next
  case (Cons c cs)
  from no_tracks_step [OF Cons.prems, of c] Cons.IH [of "player_step c s"]
  show ?case by simp
qed

text \<open>
  Claim C3, as amended. On a page with at least one playlist item the constructor puts the
  current index into the range from 0 up to, not including, the number of tracks, and it
  stays there under every sequence of \<^verbatim>\<open>loadTrack\<close> (for any argument), \<^verbatim>\<open>playNext\<close> (with
  shuffle on or off, for any pick), \<^verbatim>\<open>playPrevious\<close> and \<^verbatim>\<open>toggleShuffle\<close>: each of these
  keeps an index that is in the range in the range, and none of them changes the track
  collection. With shuffle on, a pick in the range becomes the current index;
  \<^verbatim>\<open>playPrevious\<close> steps back by one, wrapping from 0 to the last track. On a page without
  playlist items the constructor leaves the index 0 with no tracks, and there it stays.
\<close>

theorem currentTrackIndex_in_bounds:
  "(index_in_bounds s \<longrightarrow>
      index_in_bounds (loadTrack ix s) \<and> index_in_bounds (playNext pick s) \<and>
      index_in_bounds (playPrevious s) \<and> index_in_bounds (player_run cs s)) \<and>
   tracks (loadTrack ix s) = tracks s \<and> tracks (playNext pick s) = tracks s \<and>
   tracks (playPrevious s) = tracks s \<and>
   (isShuffled s \<and> 0 \<le> pick \<and> pick < int (length (tracks s)) \<longrightarrow>
      currentTrackIndex (playNext pick s) = pick) \<and>
   (index_in_bounds s \<longrightarrow>
      currentTrackIndex (playPrevious s) =
        (if currentTrackIndex s = 0 then int (length (tracks s)) - 1
         else currentTrackIndex s - 1)) \<and>
   (trackItems page \<noteq> [] \<longrightarrow>
      index_in_bounds (player_construct page) \<and>
      index_in_bounds (player_run cs (player_construct page))) \<and>
   (trackItems page = [] \<longrightarrow>
      tracks (player_construct page) = [] \<and> currentTrackIndex (player_construct page) = 0 \<and>
      tracks (player_run cs (player_construct page)) = [] \<and>
      currentTrackIndex (player_run cs (player_construct page)) = 0)"
proof -
  have shuffle: "currentTrackIndex (playNext pick s) = pick"
    if "isShuffled s" "0 \<le> pick" "pick < int (length (tracks s))"
    using that by (simp add: playNext_index loadTrack_index)
  have prev: "currentTrackIndex (playPrevious s) =
        (if currentTrackIndex s = 0 then int (length (tracks s)) - 1
         else currentTrackIndex s - 1)" if "index_in_bounds s"
    using that by (auto simp: playPrevious_index loadTrack_index index_in_bounds_def)
  have some: "index_in_bounds (player_construct page) \<and>
      index_in_bounds (player_run cs (player_construct page))" if "trackItems page \<noteq> []"
    using index_in_bounds_construct [OF that] by (simp add: index_in_bounds_run)
  have none: "tracks (player_construct page) = [] \<and>
      currentTrackIndex (player_construct page) = 0 \<and>
      tracks (player_run cs (player_construct page)) = [] \<and>
      currentTrackIndex (player_run cs (player_construct page)) = 0" if "trackItems page = []"
  proof -
    have start: "tracks (player_construct page) = []"
      "currentTrackIndex (player_construct page) = 0"
      using that by (simp_all add: player_construct_def loadTracks_def loadTrack_index)
    from no_tracks_run [OF start(1), of cs] start show ?thesis by simp
  qed
  from shuffle prev some none show ?thesis
    by (simp add: index_in_bounds_loadTrack index_in_bounds_playNext index_in_bounds_playPrevious
        index_in_bounds_run)
qed

theorem currentTrackIndex_in_bounds_witness:
  "index_in_bounds (toggleShuffle (player_construct page_ABC)) \<and>
   isShuffled (toggleShuffle (player_construct page_ABC)) \<and>
   (0::int) \<le> 2 \<and> 2 < int (length (tracks (toggleShuffle (player_construct page_ABC)))) \<and>
   trackItems page_ABC \<noteq> [] \<and> trackItems page_empty = [] \<and>
   index_in_bounds (loadTrack (Num 7) (toggleShuffle (player_construct page_ABC))) \<and>
   index_in_bounds (playNext 2 (toggleShuffle (player_construct page_ABC))) \<and>
   currentTrackIndex (playNext 2 (toggleShuffle (player_construct page_ABC))) = 2 \<and>
   currentTrackIndex (playPrevious (toggleShuffle (player_construct page_ABC))) = 2 \<and>
   index_in_bounds (player_construct page_ABC) \<and>
   index_in_bounds
     (player_run [ToggleShuffle, PlayNext 5, PlayNext 1, PlayPrevious, LoadTrack NaN, ToggleShuffle,
                  PlayNext 0] (player_construct page_ABC)) \<and>
   currentTrackIndex
     (player_run [ToggleShuffle, PlayNext 5, PlayNext 1, PlayPrevious, LoadTrack NaN, ToggleShuffle,
                  PlayNext 0] (player_construct page_ABC)) = 1 \<and>
   currentTrackIndex
     (player_run [ToggleShuffle, PlayNext 5, PlayNext 1, PlayPrevious, LoadTrack NaN, ToggleShuffle,
                  PlayNext 0] (player_construct page_empty)) = 0"
  using
    currentTrackIndex_in_bounds
      [of "toggleShuffle (player_construct page_ABC)" "Num 7" 2
          "[ToggleShuffle, PlayNext 5, PlayNext 1, PlayPrevious, LoadTrack NaN, ToggleShuffle,
            PlayNext 0]" page_ABC]
    currentTrackIndex_in_bounds
      [of "toggleShuffle (player_construct page_ABC)" "Num 7" 2
          "[ToggleShuffle, PlayNext 5, PlayNext 1, PlayPrevious, LoadTrack NaN, ToggleShuffle,
            PlayNext 0]" page_empty]
  by (simp add: page_ABC_def page_empty_def player_construct_def loadTracks_def loadTrack_def
      playNext_def playPrevious_def toggleShuffle_def js_rem_def index_in_bounds_def Let_def)

text \<open>
  The claim as it was stated fails on a page without playlist items: the constructor leaves
  the index 0 with no tracks, and 0 is not below the number of tracks.
\<close>

theorem currentTrackIndex_empty_page_counterexample:
  "tracks (player_construct page_empty) = [] \<and>
   currentTrackIndex (player_construct page_empty) = 0 \<and>
   \<not> index_in_bounds (player_construct page_empty)"
  by (simp add: page_ABC_def page_empty_def player_construct_def loadTracks_def loadTrack_def
      index_in_bounds_def)

lemma filter_eq_index: "k < n \<Longrightarrow> filter (\<lambda>j. j = k) [0 ..< n] = [k]"
proof (induction n)
  case 0
  then show ?case by simp
next
  case (Suc n)
  show ?case
  proof (cases "k = n")
    case True
    have "filter (\<lambda>j. j = n) [0 ..< n] = []" by (simp add: filter_empty_conv)
    with True show ?thesis by simp
  next
    case False
    with Suc have "filter (\<lambda>j. j = k) [0 ..< n] = [k]" by simp
    with False show ?thesis by simp
  qed
qed

lemma active_tracks_loadTrack:
  assumes wf: "tracks_from_page s" and k: "k < length (tracks s)"
  shows "active_tracks (loadTrack (Num (int k)) s) = [k]"
proof -
  let ?els = "map element (tracks s)"
  have d: "distinct ?els" and eq: "set (map fst (trackItems s)) = set ?els"
    using wf by (simp_all add: tracks_from_page_def)
  have "filter (\<lambda>j. element (tracks s ! j) \<in> insert (element (tracks s ! k)) (activeNodes s - set ?els))
          [0 ..< length (tracks s)] = filter (\<lambda>j. j = k) [0 ..< length (tracks s)]"
  proof (rule filter_cong [OF refl])
    fix j assume "j \<in> set [0 ..< length (tracks s)]"
    then have j: "j < length (tracks s)" by simp
    then have "element (tracks s ! j) \<in> set ?els" by (metis length_map nth_map nth_mem)
    moreover have "element (tracks s ! j) = element (tracks s ! k) \<longleftrightarrow> j = k"
      using d j k by (metis length_map nth_map nth_eq_iff_index_eq)
    ultimately show "(element (tracks s ! j) \<in> insert (element (tracks s ! k)) (activeNodes s - set ?els))
        = (j = k)" by simp
  qed
  with k eq show ?thesis
    by (simp add: active_tracks_def loadTrack_def Let_def filter_eq_index)
qed

text \<open>
  Claim C5. For an index within bounds \<^verbatim>\<open>loadTrack\<close> makes it the current index, takes
  source and title from that track, sets the range control to 0, the fill to 0 percent
  without its \<^verbatim>\<open>playing\<close> class, the container without its \<^verbatim>\<open>loading\<close> class and the elapsed
  time to 0:00, and, the tracks being those of the page, leaves exactly that track marked
  active. For an integer outside the bounds, and for \<^verbatim>\<open>NaN\<close>, it returns the state as it
  was. The constructor makes the tracks those of the page, and \<^verbatim>\<open>loadTrack\<close> keeps them so.
\<close>

theorem loadTrack_valid_and_invalid:
  "(0 \<le> i \<and> i < int (length (tracks s)) \<longrightarrow>
      currentTrackIndex (loadTrack (Num i) s) = i \<and>
      audioSrc (loadTrack (Num i) s) = src (tracks s ! nat i) \<and>
      trackTitleText (loadTrack (Num i) s) = title (tracks s ! nat i) \<and>
      progressBarValue (loadTrack (Num i) s) = ''0'' \<and>
      progressFillWidth (loadTrack (Num i) s) = ''0%'' \<and>
      \<not> progressFillPlaying (loadTrack (Num i) s) \<and>
      \<not> progressContainerLoading (loadTrack (Num i) s) \<and>
      currentTimeText (loadTrack (Num i) s) = ''0:00'' \<and>
      (tracks_from_page s \<longrightarrow> active_tracks (loadTrack (Num i) s) = [nat i])) \<and>
   (\<not> (0 \<le> i \<and> i < int (length (tracks s))) \<longrightarrow> loadTrack (Num i) s = s) \<and>
   loadTrack NaN s = s \<and>
   (distinct (map fst (trackItems page)) \<longrightarrow> tracks_from_page (player_construct page)) \<and>
   (tracks_from_page s \<longrightarrow> tracks_from_page (loadTrack (Num i) s))"
proof -
  have keep: "tracks_from_page s \<longrightarrow> tracks_from_page (loadTrack (Num i) s)"
    by (simp add: tracks_from_page_def)
  have act: "active_tracks (loadTrack (Num i) s) = [nat i]"
    if "0 \<le> i" "i < int (length (tracks s))" "tracks_from_page s"
  proof -
    have "nat i < length (tracks s)" using that by simp
    from active_tracks_loadTrack [OF that(3) this] that(1) show ?thesis by simp
  qed
  have page: "tracks_from_page (player_construct page)" if "distinct (map fst (trackItems page))"
    using that
    by (simp add: tracks_from_page_def player_construct_def loadTracks_def comp_def case_prod_unfold)
  have fields: "0 \<le> i \<and> i < int (length (tracks s)) \<longrightarrow>
      currentTrackIndex (loadTrack (Num i) s) = i \<and>
      audioSrc (loadTrack (Num i) s) = src (tracks s ! nat i) \<and>
      trackTitleText (loadTrack (Num i) s) = title (tracks s ! nat i) \<and>
      progressBarValue (loadTrack (Num i) s) = ''0'' \<and>
      progressFillWidth (loadTrack (Num i) s) = ''0%'' \<and>
      \<not> progressFillPlaying (loadTrack (Num i) s) \<and>
      \<not> progressContainerLoading (loadTrack (Num i) s) \<and>
      currentTimeText (loadTrack (Num i) s) = ''0:00''"
    by (simp add: loadTrack_def Let_def)
  have noop: "\<not> (0 \<le> i \<and> i < int (length (tracks s))) \<longrightarrow> loadTrack (Num i) s = s"
    "loadTrack NaN s = s"
    by (simp_all add: loadTrack_def)
  from act page fields noop keep show ?thesis by blast
qed

theorem loadTrack_valid_and_invalid_witness:
  "(0::int) \<le> 2 \<and> 2 < int (length (tracks (player_construct page_ABC))) \<and>
   tracks_from_page (player_construct page_ABC) \<and>
   distinct (map fst (trackItems page_ABC)) \<and>
   active_tracks (player_construct page_ABC) = [0] \<and>
   currentTrackIndex (loadTrack (Num 2) (player_construct page_ABC)) = 2 \<and>
   active_tracks (loadTrack (Num 2) (player_construct page_ABC)) = [2] \<and>
   activeNodes (loadTrack (Num 2) (player_construct page_ABC)) = {12, 40} \<and>
   currentTimeText (loadTrack (Num 2) (player_construct page_ABC)) = ''0:00'' \<and>
   \<not> (0 \<le> (3::int) \<and> 3 < int (length (tracks (player_construct page_ABC)))) \<and>
   loadTrack (Num 3) (player_construct page_ABC) = player_construct page_ABC \<and>
   \<not> (0 \<le> (- 1::int) \<and> - 1 < int (length (tracks (player_construct page_ABC)))) \<and>
   loadTrack (Num (- 1)) (player_construct page_ABC) = player_construct page_ABC"
proof -
  have h: "2 < int (length (tracks (player_construct page_ABC))) \<and>
      \<not> 3 < int (length (tracks (player_construct page_ABC))) \<and>
      distinct (map fst (trackItems page_ABC)) \<and>
      active_tracks (player_construct page_ABC) = [0] \<and>
      activeNodes (loadTrack (Num 2) (player_construct page_ABC)) = {12, 40}"
    by (simp add: page_ABC_def player_construct_def loadTracks_def loadTrack_def
        active_tracks_def Let_def upt_rec insert_commute)
  show ?thesis
    using h
      loadTrack_valid_and_invalid [of 2 "player_construct page_ABC" page_ABC]
      loadTrack_valid_and_invalid [of 3 "player_construct page_ABC" page_ABC]
      loadTrack_valid_and_invalid [of "- 1" "player_construct page_ABC" page_ABC]
    by simp
qed

subsection \<open>Time formatting\<close>

lemma digit_char_0: "digit_char 0 = CHR ''0''"
  by (simp add: digit_char_def)

lemma dec_nonempty: "dec n \<noteq> []"
  by (subst dec.simps) simp

lemma digit_char_zero_iff: "d < 10 \<Longrightarrow> digit_char d = CHR ''0'' \<longleftrightarrow> d = 0"
proof -
  assume "d < 10"
  then have "d \<in> {0, 1, 2, 3, 4, 5, 6, 7, 8, 9}" by auto
  then show ?thesis by (auto simp: digit_char_def)
qed

lemma dec_unpadded: "hd (dec n) = CHR ''0'' \<Longrightarrow> n = 0"
proof (induction n rule: dec.induct)
  case (1 n)
  show ?case
  proof (cases "n < 10")
    case True
    with "1.prems" show ?thesis by (simp add: dec.simps [of n] digit_char_zero_iff)
  next
    case False
    then have "hd (dec n) = hd (dec (n div 10))"
      by (simp add: dec.simps [of n] dec_nonempty)
    with "1.IH" [OF False] "1.prems" have "n div 10 = 0" by simp
    with False show ?thesis by simp
  qed
qed

lemma pad_two_digits:
  assumes "k < 60"
  shows "padStart 2 CHR ''0'' (dec k) = [digit_char (k div 10), digit_char (k mod 10)]"
proof (cases "k < 10")
  case True
  then show ?thesis by (simp add: padStart_def dec.simps [of k] digit_char_0)
next
  case False
  with assms have "k div 10 < 10" by simp
  with False show ?thesis
    by (simp add: padStart_def dec.simps [of k] dec.simps [of "k div 10"])
qed

lemma formatTime_parts:
  assumes "0 \<le> s"
  shows "\<lfloor>s / 60\<rfloor> = \<lfloor>s\<rfloor> div 60" and "\<lfloor>js_fmod s 60\<rfloor> = \<lfloor>s\<rfloor> mod 60"
proof -
  show q: "\<lfloor>s / 60\<rfloor> = \<lfloor>s\<rfloor> div 60"
    using floor_divide_real_eq_div [of 60 s] by simp
  have "0 \<le> s / 60" using assms by simp
  then have "js_fmod s 60 = s - of_int (60 * \<lfloor>s / 60\<rfloor>)" by (simp add: js_fmod_def)
  then have "\<lfloor>js_fmod s 60\<rfloor> = \<lfloor>s\<rfloor> - 60 * \<lfloor>s / 60\<rfloor>"
    by (simp only: floor_diff_of_int)
  with q show "\<lfloor>js_fmod s 60\<rfloor> = \<lfloor>s\<rfloor> mod 60"
    by (simp add: minus_mult_div_eq_mod)
qed

lemma is_digit_digit_char: "d < 10 \<Longrightarrow> is_digit (digit_char d)"
proof -
  assume "d < 10"
  then have "d \<in> {0, 1, 2, 3, 4, 5, 6, 7, 8, 9}" by auto
  then show ?thesis by (auto simp: digit_char_def is_digit_def)
qed

lemma is_digit_dec: "list_all is_digit (dec n)"
proof (induction n rule: dec.induct)
  case (1 n)
  show ?case
  proof (cases "n < 10")
    case True
    then show ?thesis by (simp add: dec.simps [of n] is_digit_digit_char)
  next
    case False
    with "1.IH" show ?thesis by (simp add: dec.simps [of n] is_digit_digit_char)
  qed
qed

lemma is_digit_not_colon: "is_digit c \<Longrightarrow> c \<noteq> CHR '':''"
  by (auto simp: is_digit_def)

lemma shape_of_digits:
  assumes "list_all is_digit ms" "ms \<noteq> []" "is_digit a" "is_digit b"
  shows "spec_minutes_colon_seconds (ms @ '':'' @ [a, b])"
proof -
  have nc: "\<forall>c \<in> set ms. c \<noteq> CHR '':''"
    using assms(1) by (auto simp: list_all_iff dest: is_digit_not_colon)
  then have tw: "takeWhile (\<lambda>c. c \<noteq> CHR '':'') (ms @ '':'' @ [a, b]) = ms"
    by (simp add: takeWhile_append2)
  from nc have dw: "dropWhile (\<lambda>c. c \<noteq> CHR '':'') (ms @ '':'' @ [a, b]) = '':'' @ [a, b]"
    by (simp add: dropWhile_append2)
  show ?thesis
    unfolding spec_minutes_colon_seconds_def Let_def tw dw using assms by simp
qed

text \<open>
  Claim C4, as amended. For a finite number of seconds from 0 up to, not including, \<open>2^52\<close>
  \<^verbatim>\<open>formatTime\<close> yields the decimal digits of the floor of seconds / 60, without padding (a
  leading 0 only when the minutes are 0), a colon, and the two digits of the floor of the
  remainder of seconds by 60, which lies between 0 and 59; the result has the shape the
  specification describes. It maps 0 to 0:00, 65 to 1:05 and 3599 to 59:59. For the number
  \<^verbatim>\<open>Infinity\<close> it yields the text Infinity:NaN.
\<close>

theorem formatTime_minutes_colon_seconds:
  "(0 \<le> s \<and> s < 2 ^ 52 \<longrightarrow>
      (let str = dec (nat \<lfloor>s / 60\<rfloor>) @ '':'' @
                 [digit_char (nat \<lfloor>js_fmod s 60\<rfloor> div 10),
                  digit_char (nat \<lfloor>js_fmod s 60\<rfloor> mod 10)]
       in formatTime (Finite s) = Some str \<and>
          (hd str = CHR ''0'' \<longrightarrow> \<lfloor>s / 60\<rfloor> = 0) \<and>
          spec_minutes_colon_seconds str) \<and>
      js_fmod s 60 = s - 60 * of_int \<lfloor>s / 60\<rfloor> \<and>
      0 \<le> \<lfloor>js_fmod s 60\<rfloor> \<and> \<lfloor>js_fmod s 60\<rfloor> < 60) \<and>
   formatTime (Finite 0) = Some ''0:00'' \<and> formatTime (Finite 65) = Some ''1:05'' \<and>
   formatTime (Finite 3599) = Some ''59:59'' \<and>
   formatTime PosInfinity = Some ''Infinity:NaN''"
proof -
  have ex: "formatTime (Finite 0) = Some ''0:00''" "formatTime (Finite 65) = Some ''1:05''"
    "formatTime (Finite 3599) = Some ''59:59''" "formatTime PosInfinity = Some ''Infinity:NaN''"
    by (simp_all add: formatTime_def js_fmod_def toString_def padStart_def dec.simps
        digit_char_def)
  {
    assume nn: "0 \<le> s" and lt: "s < 2 ^ 52"
    let ?k = "nat \<lfloor>js_fmod s 60\<rfloor>"
    let ?str = "dec (nat \<lfloor>s / 60\<rfloor>) @ '':'' @ [digit_char (?k div 10), digit_char (?k mod 10)]"
    have m: "0 \<le> \<lfloor>s / 60\<rfloor>" using nn by simp
    have k: "0 \<le> \<lfloor>js_fmod s 60\<rfloor>" "\<lfloor>js_fmod s 60\<rfloor> < 60"
      by (simp_all add: formatTime_parts(2) [OF nn])
    have fm: "js_fmod s 60 = s - 60 * of_int \<lfloor>s / 60\<rfloor>"
      using nn by (simp add: js_fmod_def)
    have k60: "?k < 60" using k by linarith
    then have pad: "padStart 2 CHR ''0'' (dec ?k) = [digit_char (?k div 10), digit_char (?k mod 10)]"
      by (rule pad_two_digits)
    have eq: "formatTime (Finite s) = Some ?str"
      using nn lt m k(1) pad by (simp add: formatTime_def toString_def Let_def)
    have hd_eq: "hd ?str = hd (dec (nat \<lfloor>s / 60\<rfloor>))"
      by (simp add: dec_nonempty)
    have unpadded: "hd ?str = CHR ''0'' \<longrightarrow> \<lfloor>s / 60\<rfloor> = 0"
    proof
      assume "hd ?str = CHR ''0''"
      with hd_eq have "hd (dec (nat \<lfloor>s / 60\<rfloor>)) = CHR ''0''" by (simp only:)
      then have "nat \<lfloor>s / 60\<rfloor> = 0" by (rule dec_unpadded)
      with m show "\<lfloor>s / 60\<rfloor> = 0" by linarith
    qed
    have "?k div 10 < 10" "?k mod 10 < 10" using k60 by simp_all
    then have "is_digit (digit_char (?k div 10))" "is_digit (digit_char (?k mod 10))"
      by (simp_all only: is_digit_digit_char)
    with is_digit_dec [of "nat \<lfloor>s / 60\<rfloor>"] dec_nonempty [of "nat \<lfloor>s / 60\<rfloor>"]
    have shape: "spec_minutes_colon_seconds ?str" by (rule shape_of_digits)
    from eq unpadded shape fm k
    have "(let str = ?str
       in formatTime (Finite s) = Some str \<and>
          (hd str = CHR ''0'' \<longrightarrow> \<lfloor>s / 60\<rfloor> = 0) \<and>
          spec_minutes_colon_seconds str) \<and>
      js_fmod s 60 = s - 60 * of_int \<lfloor>s / 60\<rfloor> \<and>
      0 \<le> \<lfloor>js_fmod s 60\<rfloor> \<and> \<lfloor>js_fmod s 60\<rfloor> < 60"
      unfolding Let_def by blast
  }
  with ex show ?thesis by blast
qed

theorem formatTime_minutes_colon_seconds_witness:
  "(0::real) \<le> 7325 / 2 \<and> (7325::real) / 2 < 2 ^ 52 \<and>
   formatTime (Finite (7325 / 2)) = Some ''61:02'' \<and>
   spec_minutes_colon_seconds ''61:02'' \<and>
   js_fmod (7325 / 2) 60 = 5 / 2 \<and>
   (0::real) \<le> 1 / 2 \<and> (1::real) / 2 < 2 ^ 52 \<and>
   formatTime (Finite (1 / 2)) = Some ''0:00'' \<and> \<lfloor>(1 / 2 :: real) / 60\<rfloor> = 0"
proof -
  have d: "dec 61 = ''61''" "digit_char 0 = CHR ''0''" "digit_char 2 = CHR ''2''"
    "dec 0 = ''0''"
    by (simp_all add: dec.simps digit_char_def)
  show ?thesis
    using formatTime_minutes_colon_seconds [of "7325 / 2"]
      formatTime_minutes_colon_seconds [of "1 / 2"]
    by (simp add: d js_fmod_def Let_def)
qed

text \<open>
  The claim as it was stated fails at \<^verbatim>\<open>Infinity\<close>, a number that is neither negative nor
  \<^verbatim>\<open>NaN\<close>: the result there is not a colon between decimal minutes and two digits of
  seconds.
\<close>

theorem formatTime_infinity_counterexample:
  "formatTime PosInfinity = Some ''Infinity:NaN'' \<and>
   \<not> spec_minutes_colon_seconds ''Infinity:NaN''"
  by (simp add: formatTime_def padStart_def spec_minutes_colon_seconds_def is_digit_def Let_def)

section \<open>Properties of the task list\<close>

lemma trim_blank_iff: "trim v = [] \<longleftrightarrow> (\<forall>c \<in> set v. is_space c)"
proof
  assume "trim v = []"
  then have all: "\<forall>c \<in> set (dropWhile is_space v). is_space c"
    by (simp add: trim_def dropWhile_eq_Nil_conv)
  have "dropWhile is_space v = []"
  proof (rule ccontr)
    assume ne: "dropWhile is_space v \<noteq> []"
    then have "\<not> is_space (hd (dropWhile is_space v))" by (rule hd_dropWhile)
    moreover have "hd (dropWhile is_space v) \<in> set (dropWhile is_space v)" using ne by simp
    ultimately show False using all by blast
  qed
  then show "\<forall>c \<in> set v. is_space c" by (simp add: dropWhile_eq_Nil_conv)
next
  assume "\<forall>c \<in> set v. is_space c"
  then show "trim v = []" by (auto simp: trim_def dest: set_dropWhileD)
qed

lemma remainingCount_render_count [simp]:
  "remainingCount (updateTodoCount s) = remainingCount s"
  "remainingCount (renderTodos s) = remainingCount s"
  by (simp_all add: remainingCount_def updateTodoCount_def renderTodos_def)

lemma todos_render_count [simp]:
  "todos (updateTodoCount s) = todos s" "todos (renderTodos s) = todos s"
  "todoIdCounter (updateTodoCount s) = todoIdCounter s"
  "todoIdCounter (renderTodos s) = todoIdCounter s"
  by (simp_all add: updateTodoCount_def renderTodos_def)

lemma addTodo_accepted:
  assumes "trim (todoInputValue s) \<noteq> []"
  shows "todos (addTodo now s) =
           todos s @ [\<lparr>todo_id = todoIdCounter s, todo_text = trim (todoInputValue s),
                       completed = False, timestamp = now\<rparr>]"
    and "todoIdCounter (addTodo now s) = todoIdCounter s + 1"
    and "todoInputValue (addTodo now s) = []"
    and "todoCountText (addTodo now s) = toString (int (remainingCount s) + 1)"
    and "todoListItems (addTodo now s) =
           map (\<lambda>t. (todo_id t, todo_text t, completed t)) (todos (addTodo now s))"
  using assms
  by (simp_all add: addTodo_def Let_def updateTodoCount_def renderTodos_def remainingCount_def)

lemma find_index_Some:
  "find_index P xs = Some k \<longleftrightarrow> k < length xs \<and> P (xs ! k) \<and> (\<forall>j < k. \<not> P (xs ! j))"
proof (induction xs arbitrary: k)
  case Nil
  then show ?case by simp
next
  case (Cons x xs)
  show ?case
  proof (cases "P x")
    case True
    then show ?thesis by (cases k) auto
  next
    case False
    show ?thesis
    proof (cases k)
      case 0
      with False show ?thesis by simp
    next
      case (Suc k')
      have "(\<forall>j < Suc k'. \<not> P ((x # xs) ! j)) \<longleftrightarrow> (\<forall>j < k'. \<not> P (xs ! j))"
        using False by (auto simp: less_Suc_eq_0_disj)
      with False Suc Cons.IH [of k'] show ?thesis by auto
    qed
  qed
qed

lemma find_index_None: "find_index P xs = None \<longleftrightarrow> (\<forall>x \<in> set xs. \<not> P x)"
  by (induction xs) auto

lemma ids_toggle:
  "k < length ts \<Longrightarrow> map todo_id (ts[k := (ts ! k)\<lparr>completed := b\<rparr>]) = map todo_id ts"
  by (simp add: map_update list_update_same_conv)

lemma toggleTodo_ids: "map todo_id (todos (toggleTodo i s)) = map todo_id (todos s)"
  by (auto simp: toggleTodo_def find_index_Some ids_toggle split: option.splits)

lemma toggleTodo_counter: "todoIdCounter (toggleTodo i s) = todoIdCounter s"
  by (simp add: toggleTodo_def split: option.splits)

lemma ids_increasing_alt:
  "ids_increasing s \<longleftrightarrow>
     sorted_wrt (<) (map todo_id (todos s)) \<and> (\<forall>x \<in> set (map todo_id (todos s)). x < todoIdCounter s)"
  by (simp add: ids_increasing_def)

lemma ids_increasing_addTodo: "ids_increasing s \<Longrightarrow> ids_increasing (addTodo now s)"
proof (cases "trim (todoInputValue s) = []")
  case True
  assume "ids_increasing s"
  with True show ?thesis by (simp add: addTodo_def)
next
  case False
  assume "ids_increasing s"
  then show ?thesis
    by (auto simp: ids_increasing_def addTodo_accepted [OF False] sorted_wrt_append)
qed

lemma ids_increasing_toggleTodo: "ids_increasing s \<Longrightarrow> ids_increasing (toggleTodo i s)"
  unfolding ids_increasing_alt toggleTodo_ids toggleTodo_counter .

lemma ids_increasing_deleteTodo: "ids_increasing s \<Longrightarrow> ids_increasing (deleteTodo i s)"
  by (simp add: ids_increasing_def deleteTodo_def filter_map comp_def sorted_wrt_filter
      sorted_wrt_map)

lemma ids_increasing_step: "ids_increasing s \<Longrightarrow> ids_increasing (todo_step e s)"
  by (cases e)
    (simp_all add: ids_increasing_addTodo ids_increasing_toggleTodo ids_increasing_deleteTodo,
      simp add: ids_increasing_def)

lemma ids_increasing_run: "ids_increasing s \<Longrightarrow> ids_increasing (todo_run es s)"
  by (induction es arbitrary: s) (simp_all add: ids_increasing_step)

lemma ids_increasing_init: "ids_increasing (todo_init c items)"
  by (simp add: ids_increasing_def todo_init_def)

lemma ids_increasing_distinct: "ids_increasing s \<Longrightarrow> distinct (map todo_id (todos s))"
  by (simp add: ids_increasing_def strict_sorted_iff)

lemma counter_monotone: "todoIdCounter s \<le> todoIdCounter (todo_step e s)"
  by (cases e) (simp_all add: addTodo_def Let_def toggleTodo_counter deleteTodo_def)


text \<open>
  Claim C6. \<^verbatim>\<open>addTodo\<close> trims the input; the trimmed text is empty exactly when the input
  consists of white space only, and then \<^verbatim>\<open>addTodo\<close> returns the state as it was. Otherwise
  it appends one entry at the end, with the counter's value as identifier, the trimmed text
  and the completed flag off, advances the counter by one, clears the input, and the number
  of incomplete entries, which the counter label then shows, grows by exactly one.
  Identifiers stay strictly increasing along the collection and below the counter, in every
  state the task list can reach, and no operation ever lowers the counter, so an identifier
  is never issued twice.
\<close>

theorem addTodo_trims_and_appends:
  "(trim (todoInputValue s) = [] \<longleftrightarrow> (\<forall>c \<in> set (todoInputValue s). is_space c)) \<and>
   (trim (todoInputValue s) = [] \<longrightarrow> addTodo now s = s) \<and>
   (trim (todoInputValue s) \<noteq> [] \<longrightarrow>
      todos (addTodo now s) =
        todos s @ [\<lparr>todo_id = todoIdCounter s, todo_text = trim (todoInputValue s),
                    completed = False, timestamp = now\<rparr>] \<and>
      todoIdCounter (addTodo now s) = todoIdCounter s + 1 \<and>
      length (todos (addTodo now s)) = length (todos s) + 1 \<and>
      remainingCount (addTodo now s) = remainingCount s + 1 \<and>
      todoCountText (addTodo now s) = toString (int (remainingCount s) + 1) \<and>
      todoInputValue (addTodo now s) = []) \<and>
   (ids_increasing s \<longrightarrow> ids_increasing (addTodo now s)) \<and>
   ids_increasing (todo_run es (todo_init c items)) \<and>
   todoIdCounter s \<le> todoIdCounter (todo_step e s)"
proof -
  have rejected: "trim (todoInputValue s) = [] \<longrightarrow> addTodo now s = s"
    by (simp add: addTodo_def)
  have accepted: "trim (todoInputValue s) \<noteq> [] \<longrightarrow>
      todos (addTodo now s) =
        todos s @ [\<lparr>todo_id = todoIdCounter s, todo_text = trim (todoInputValue s),
                    completed = False, timestamp = now\<rparr>] \<and>
      todoIdCounter (addTodo now s) = todoIdCounter s + 1 \<and>
      length (todos (addTodo now s)) = length (todos s) + 1 \<and>
      remainingCount (addTodo now s) = remainingCount s + 1 \<and>
      todoCountText (addTodo now s) = toString (int (remainingCount s) + 1) \<and>
      todoInputValue (addTodo now s) = []"
    by (simp add: addTodo_accepted remainingCount_def)
  have reach: "ids_increasing (todo_run es (todo_init c items))"
    by (rule ids_increasing_run) (rule ids_increasing_init)
  from rejected accepted reach show ?thesis
    by (simp add: trim_blank_iff ids_increasing_addTodo counter_monotone)
qed

theorem addTodo_trims_and_appends_witness:
  "trim (todoInputValue (todo_AB\<lparr>todoInputValue := [CHR 0x20, CHR 0x09, CHR 0xA0]\<rparr>)) = [] \<and>
   addTodo 5 (todo_AB\<lparr>todoInputValue := [CHR 0x20, CHR 0x09, CHR 0xA0]\<rparr>) =
     todo_AB\<lparr>todoInputValue := [CHR 0x20, CHR 0x09, CHR 0xA0]\<rparr> \<and>
   trim (todoInputValue (todo_AB\<lparr>todoInputValue := '' Walk the dog  ''\<rparr>)) \<noteq> [] \<and>
   ids_increasing (todo_AB\<lparr>todoInputValue := '' Walk the dog  ''\<rparr>) \<and>
   todos (addTodo 300 (todo_AB\<lparr>todoInputValue := '' Walk the dog  ''\<rparr>)) =
     [\<lparr>todo_id = 0, todo_text = ''Study'', completed = False, timestamp = 100\<rparr>,
      \<lparr>todo_id = 1, todo_text = ''Rest'', completed = False, timestamp = 200\<rparr>,
      \<lparr>todo_id = 2, todo_text = ''Walk the dog'', completed = False, timestamp = 300\<rparr>] \<and>
   remainingCount (addTodo 300 (todo_AB\<lparr>todoInputValue := '' Walk the dog  ''\<rparr>)) = 3 \<and>
   todoCountText (addTodo 300 (todo_AB\<lparr>todoInputValue := '' Walk the dog  ''\<rparr>)) = ''3'' \<and>
   todoIdCounter (addTodo 300 (todo_AB\<lparr>todoInputValue := '' Walk the dog  ''\<rparr>)) = 3 \<and>
   ids_increasing (addTodo 300 (todo_AB\<lparr>todoInputValue := '' Walk the dog  ''\<rparr>))"
  using
    addTodo_trims_and_appends
      [of "todo_AB\<lparr>todoInputValue := [CHR 0x20, CHR 0x09, CHR 0xA0]\<rparr>" 5 "[]" "[]" "[]"
          "InputEdited []"]
    addTodo_trims_and_appends
      [of "todo_AB\<lparr>todoInputValue := '' Walk the dog  ''\<rparr>" 300 "[]" "[]" "[]"
          "InputEdited []"]
  by (simp add: todo_AB_def todo_init_def addTodo_def toggleTodo_def deleteTodo_def
      renderTodos_def updateTodoCount_def remainingCount_def trim_def is_space_def toString_def
      dec.simps digit_char_def ids_increasing_def Let_def)


lemma filter_remove_unique:
  assumes d: "distinct (map f xs)" and k: "k < length xs"
  shows "filter (\<lambda>x. f x \<noteq> f (xs ! k)) xs = take k xs @ drop (Suc k) xs"
proof -
  have split: "xs = take k xs @ xs ! k # drop (Suc k) xs"
    using k by (rule id_take_nth_drop)
  from d have "distinct (map f (take k xs @ xs ! k # drop (Suc k) xs))"
    by (simp only: split [symmetric])
  then have out: "f (xs ! k) \<notin> f ` set (take k xs)" "f (xs ! k) \<notin> f ` set (drop (Suc k) xs)"
    by auto
  have "\<forall>x \<in> set (take k xs). f x \<noteq> f (xs ! k)"
    using out(1) by (metis imageI)
  then have a: "filter (\<lambda>x. f x \<noteq> f (xs ! k)) (take k xs) = take k xs"
    by (rule filter_True)
  have "\<forall>x \<in> set (drop (Suc k) xs). f x \<noteq> f (xs ! k)"
    using out(2) by (metis imageI)
  then have b: "filter (\<lambda>x. f x \<noteq> f (xs ! k)) (drop (Suc k) xs) = drop (Suc k) xs"
    by (rule filter_True)
  have "filter (\<lambda>x. f x \<noteq> f (xs ! k)) xs =
      filter (\<lambda>x. f x \<noteq> f (xs ! k)) (take k xs @ xs ! k # drop (Suc k) xs)"
    by (simp only: split [symmetric])
  also have "\<dots> = take k xs @ drop (Suc k) xs"
    by (simp add: a b)
  finally show ?thesis .
qed

lemma find_index_unique:
  assumes d: "distinct (map f xs)" and k: "k < length xs"
  shows "find_index (\<lambda>x. f x = f (xs ! k)) xs = Some k"
proof -
  have "f (xs ! j) \<noteq> f (xs ! k)" if "j < k" for j
  proof -
    from that k have jk: "j < length (map f xs)" "k < length (map f xs)" "j \<noteq> k"
      by simp_all
    from d jk(1,2) have "(map f xs ! j = map f xs ! k) = (j = k)"
      by (rule nth_eq_iff_index_eq)
    with jk(3) that k show ?thesis by simp
  qed
  with k show ?thesis by (simp add: find_index_Some)
qed

text \<open>
  Claim C8. For an identifier that no entry carries, \<^verbatim>\<open>toggleTodo\<close> returns the state as it
  was and \<^verbatim>\<open>deleteTodo\<close> leaves the collection as it was. With pairwise different
  identifiers, as in every state the task list can reach, \<^verbatim>\<open>toggleTodo\<close> flips the completed
  flag of the entry that carries the identifier and \<^verbatim>\<open>deleteTodo\<close> removes exactly that
  entry.
\<close>

theorem toggleTodo_deleteTodo_by_id:
  "(i \<notin> todo_id ` set (todos s) \<longrightarrow>
      toggleTodo i s = s \<and> todos (deleteTodo i s) = todos s) \<and>
   (distinct (map todo_id (todos s)) \<and> k < length (todos s) \<and> todo_id (todos s ! k) = i \<longrightarrow>
      todos (toggleTodo i s) =
        (todos s)[k := (todos s ! k)\<lparr>completed := \<not> completed (todos s ! k)\<rparr>] \<and>
      todos (deleteTodo i s) = take k (todos s) @ drop (Suc k) (todos s)) \<and>
   distinct (map todo_id (todos (todo_run es (todo_init c items))))"
proof -
  have absent: "toggleTodo i s = s \<and> todos (deleteTodo i s) = todos s"
    if "i \<notin> todo_id ` set (todos s)"
  proof -
    from that have none: "\<forall>t \<in> set (todos s). todo_id t \<noteq> i" by auto
    then have "find_index (\<lambda>t. todo_id t = i) (todos s) = None"
      by (simp add: find_index_None)
    then have "toggleTodo i s = s" by (simp add: toggleTodo_def)
    moreover have "filter (\<lambda>t. todo_id t \<noteq> i) (todos s) = todos s"
      using none by (simp add: filter_id_conv)
    ultimately show ?thesis by (simp add: deleteTodo_def)
  qed
  have present: "todos (toggleTodo i s) =
        (todos s)[k := (todos s ! k)\<lparr>completed := \<not> completed (todos s ! k)\<rparr>] \<and>
      todos (deleteTodo i s) = take k (todos s) @ drop (Suc k) (todos s)"
    if d: "distinct (map todo_id (todos s))" and k: "k < length (todos s)"
      and i: "todo_id (todos s ! k) = i"
  proof -
    from find_index_unique [OF d k] i
    have "find_index (\<lambda>t. todo_id t = i) (todos s) = Some k" by simp
    then have "todos (toggleTodo i s) =
        (todos s)[k := (todos s ! k)\<lparr>completed := \<not> completed (todos s ! k)\<rparr>]"
      by (simp add: toggleTodo_def)
    moreover from filter_remove_unique [OF d k] i
    have "todos (deleteTodo i s) = take k (todos s) @ drop (Suc k) (todos s)"
      by (simp add: deleteTodo_def)
    ultimately show ?thesis by simp
  qed
  have "ids_increasing (todo_run es (todo_init c items))"
    by (rule ids_increasing_run) (rule ids_increasing_init)
  then have "distinct (map todo_id (todos (todo_run es (todo_init c items))))"
    by (rule ids_increasing_distinct)
  with absent present show ?thesis by blast
qed

theorem toggleTodo_deleteTodo_by_id_witness:
  "7 \<notin> todo_id ` set (todos todo_AB) \<and> toggleTodo 7 todo_AB = todo_AB \<and>
   todos (deleteTodo 7 todo_AB) = todos todo_AB \<and>
   distinct (map todo_id (todos todo_AB)) \<and> 1 < length (todos todo_AB) \<and>
   todo_id (todos todo_AB ! 1) = 1 \<and>
   todos (toggleTodo 1 todo_AB) =
     [\<lparr>todo_id = 0, todo_text = ''Study'', completed = False, timestamp = 100\<rparr>,
      \<lparr>todo_id = 1, todo_text = ''Rest'', completed = True, timestamp = 200\<rparr>] \<and>
   todos (deleteTodo 1 todo_AB) =
     [\<lparr>todo_id = 0, todo_text = ''Study'', completed = False, timestamp = 100\<rparr>]"
  using toggleTodo_deleteTodo_by_id [of 7 todo_AB 0 "[]" "[]" "[]"]
    toggleTodo_deleteTodo_by_id [of 1 todo_AB 1 "[]" "[]" "[]"]
  by (simp add: todo_AB_def todo_init_def addTodo_def toggleTodo_def deleteTodo_def
      renderTodos_def updateTodoCount_def remainingCount_def trim_def is_space_def toString_def
      dec.simps digit_char_def ids_increasing_def Let_def)

text \<open>
  Claim C10. \<^verbatim>\<open>toggleTodo\<close> on an identifier that some entry carries changes one entry, one
  that carries the identifier, and of that entry only the completed flag, which it negates;
  every other entry is as it was. In any case the length of the collection, the sequence of
  identifiers, texts and timestamps, the counter and the input are as they were.
\<close>

theorem toggleTodo_changes_only_completed:
  "(i \<in> todo_id ` set (todos s) \<longrightarrow>
      (\<exists>k < length (todos s).
         todo_id (todos s ! k) = i \<and>
         (\<forall>j < length (todos s). j \<noteq> k \<longrightarrow> todos (toggleTodo i s) ! j = todos s ! j) \<and>
         todo_id (todos (toggleTodo i s) ! k) = todo_id (todos s ! k) \<and>
         todo_text (todos (toggleTodo i s) ! k) = todo_text (todos s ! k) \<and>
         timestamp (todos (toggleTodo i s) ! k) = timestamp (todos s ! k) \<and>
         completed (todos (toggleTodo i s) ! k) = (\<not> completed (todos s ! k)))) \<and>
   length (todos (toggleTodo i s)) = length (todos s) \<and>
   map todo_id (todos (toggleTodo i s)) = map todo_id (todos s) \<and>
   map todo_text (todos (toggleTodo i s)) = map todo_text (todos s) \<and>
   map timestamp (todos (toggleTodo i s)) = map timestamp (todos s) \<and>
   todoIdCounter (toggleTodo i s) = todoIdCounter s \<and>
   todoInputValue (toggleTodo i s) = todoInputValue s"
proof -
  have len: "length (todos (toggleTodo i s)) = length (todos s)"
    by (simp add: toggleTodo_def split: option.splits)
  have maps: "map todo_text (todos (toggleTodo i s)) = map todo_text (todos s)"
    "map timestamp (todos (toggleTodo i s)) = map timestamp (todos s)"
    by (auto simp: toggleTodo_def find_index_Some map_update list_update_same_conv
        split: option.splits)
  have inp: "todoInputValue (toggleTodo i s) = todoInputValue s"
    by (simp add: toggleTodo_def updateTodoCount_def renderTodos_def split: option.splits)
  have entry: "\<exists>k < length (todos s).
         todo_id (todos s ! k) = i \<and>
         (\<forall>j < length (todos s). j \<noteq> k \<longrightarrow> todos (toggleTodo i s) ! j = todos s ! j) \<and>
         todo_id (todos (toggleTodo i s) ! k) = todo_id (todos s ! k) \<and>
         todo_text (todos (toggleTodo i s) ! k) = todo_text (todos s ! k) \<and>
         timestamp (todos (toggleTodo i s) ! k) = timestamp (todos s ! k) \<and>
         completed (todos (toggleTodo i s) ! k) = (\<not> completed (todos s ! k))"
    if "i \<in> todo_id ` set (todos s)"
  proof -
    from that have "find_index (\<lambda>t. todo_id t = i) (todos s) \<noteq> None"
      by (auto simp: find_index_None)
    then obtain k where f: "find_index (\<lambda>t. todo_id t = i) (todos s) = Some k" by blast
    then have k: "k < length (todos s)" "todo_id (todos s ! k) = i"
      by (simp_all add: find_index_Some)
    have "todos (toggleTodo i s) =
        (todos s)[k := (todos s ! k)\<lparr>completed := \<not> completed (todos s ! k)\<rparr>]"
      using f by (simp add: toggleTodo_def)
    with k show ?thesis by (intro exI [of _ k]) simp
  qed
  from len maps inp entry show ?thesis
    by (simp add: toggleTodo_ids toggleTodo_counter)
qed

theorem toggleTodo_changes_only_completed_witness:
  "0 \<in> todo_id ` set (todos todo_AB) \<and>
   todos (toggleTodo 0 todo_AB) ! 1 = todos todo_AB ! 1 \<and>
   todos (toggleTodo 0 todo_AB) ! 0 =
     \<lparr>todo_id = 0, todo_text = ''Study'', completed = True, timestamp = 100\<rparr> \<and>
   todos todo_AB ! 0 =
     \<lparr>todo_id = 0, todo_text = ''Study'', completed = False, timestamp = 100\<rparr> \<and>
   length (todos (toggleTodo 0 todo_AB)) = 2 \<and>
   map todo_id (todos (toggleTodo 0 todo_AB)) = [0, 1]"
  using toggleTodo_changes_only_completed [of 0 todo_AB]
  by (simp add: todo_AB_def todo_init_def addTodo_def toggleTodo_def deleteTodo_def
      renderTodos_def updateTodoCount_def remainingCount_def trim_def is_space_def toString_def
      dec.simps digit_char_def ids_increasing_def Let_def)

end
